theory Spec2Isabelle
  imports Main
begin

section \<open>Strings, the delimiter and the query-string codec\<close>

text \<open>
  The client (\<^verbatim>\<open>lib/DenonHeos.js\<close>) talks to the device over one socket. Text is
  modelled as \<^typ>\<open>string\<close>, one \<^typ>\<open>char\<close> per octet of its UTF-8 form; the
  protocol itself is ASCII.
\<close>

definition DELIMITER :: string where
  "DELIMITER = [CHR 0x0D, CHR 0x0A]"

text \<open>
  \<^verbatim>\<open>String.prototype.split(DELIMITER)\<close>: the pieces between the occurrences of the
  delimiter, found from the left; never the empty list.
\<close>

fun split_DELIMITER :: "string \<Rightarrow> string list" where
  "split_DELIMITER (c # d # cs) =
     (if c = CHR 0x0D \<and> d = CHR 0x0A then [] # split_DELIMITER cs
      else (case split_DELIMITER (d # cs) of
              [] \<Rightarrow> [[c]]
            | u # us \<Rightarrow> (c # u) # us))"
| "split_DELIMITER cs = [cs]"

text \<open>\<^verbatim>\<open>Array.prototype.join(DELIMITER)\<close>.\<close>

fun join_DELIMITER :: "string list \<Rightarrow> string" where
  "join_DELIMITER [] = []"
| "join_DELIMITER [u] = u"
| "join_DELIMITER (u # v # us) = u @ DELIMITER @ join_DELIMITER (v # us)"

subsection \<open>Percent coding (\<^verbatim>\<open>querystring.escape\<close>, \<^verbatim>\<open>querystring.unescape\<close>)\<close>

text \<open>
  Node's \<^verbatim>\<open>querystring\<close> module is the platform's, not the repository's; it is
  modelled after its documented behaviour, at the level of octets.
  \<^verbatim>\<open>escape\<close> leaves the characters \<^verbatim>\<open>A-Z a-z 0-9 - _ . ! ~ * ' ( )\<close> alone and
  writes every other octet as \<^verbatim>\<open>%XX\<close> with upper-case hexadecimal digits.
\<close>

definition unreserved :: "char \<Rightarrow> bool" where
  "unreserved c \<longleftrightarrow>
     (let n = (of_char c :: nat) in
      (65 \<le> n \<and> n \<le> 90) \<or> (97 \<le> n \<and> n \<le> 122) \<or> (48 \<le> n \<and> n \<le> 57)
      \<or> c \<in> set ''-_.!~*()'' \<or> n = 39)"

definition hexdigit :: "nat \<Rightarrow> char" where
  "hexdigit n = (if n < 10 then char_of (48 + n) else char_of (55 + n))"

definition hexval :: "char \<Rightarrow> nat option" where
  "hexval c =
     (let n = (of_char c :: nat) in
      if 48 \<le> n \<and> n \<le> 57 then Some (n - 48)
      else if 65 \<le> n \<and> n \<le> 70 then Some (n - 55)
      else if 97 \<le> n \<and> n \<le> 102 then Some (n - 87)
      else None)"

definition escape_char :: "char \<Rightarrow> string" where
  "escape_char c =
     (if unreserved c then [c]
      else [CHR ''%'', hexdigit (of_char c div 16), hexdigit (of_char c mod 16)])"

definition escape :: "string \<Rightarrow> string" where
  "escape s = concat (map escape_char s)"

text \<open>
  \<^verbatim>\<open>unescape\<close> decodes every \<^verbatim>\<open>%XX\<close> whose two digits are hexadecimal and leaves
  any other \<^verbatim>\<open>%\<close> where it stands (\<^verbatim>\<open>decodeURIComponent\<close>, with the lenient
  \<^verbatim>\<open>unescapeBuffer\<close> as its fallback).
\<close>

fun unescape :: "string \<Rightarrow> string" where
  "unescape (c # h # l # cs) =
     (if c = CHR ''%'' then
        (case (hexval h, hexval l) of
           (Some a, Some b) \<Rightarrow> char_of (16 * a + b) # unescape cs
         | _ \<Rightarrow> c # unescape (h # l # cs))
      else c # unescape (h # l # cs))"
| "unescape cs = cs"

subsection \<open>\<^verbatim>\<open>querystring.stringify\<close>\<close>

text \<open>
  The parameter object of a command is the list of its own keys with their values, in
  the order \<^verbatim>\<open>Object.keys\<close> gives them; the values are strings (spec, section 3).
  The loop of \<^verbatim>\<open>stringify\<close> puts the separator before every field but the first.
\<close>

type_synonym params = "(string \<times> string) list"

definition stringify_field :: "string \<Rightarrow> string \<times> string \<Rightarrow> string" where
  "stringify_field fields kv =
     (if fields \<noteq> [] then fields @ ''&'' else fields)
       @ escape (fst kv) @ ''='' @ escape (snd kv)"

definition stringify :: "params \<Rightarrow> string" where
  "stringify obj = foldl stringify_field [] obj"

subsection \<open>\<^verbatim>\<open>querystring.parse\<close>\<close>

text \<open>
  The result of \<^verbatim>\<open>querystring.parse\<close> is an object whose values are strings, or
  arrays of strings for a key that occurs more than once
  (\<^verbatim>\<open>querystring.parse('foo=bar&abc=xyz&abc=123')\<close> is
  \<^verbatim>\<open>{ foo: 'bar', abc: ['xyz', '123'] }\<close>).
\<close>

datatype qvalue = QStr string | QArr "string list"

type_synonym qsobj = "(string \<times> qvalue) list"

fun split_on :: "char \<Rightarrow> string \<Rightarrow> string list" where
  "split_on sep [] = [[]]"
| "split_on sep (c # cs) =
     (if c = sep then [] # split_on sep cs
      else (case split_on sep cs of
              [] \<Rightarrow> [[c]]
            | u # us \<Rightarrow> (c # u) # us))"

definition decode_component :: "string \<Rightarrow> string" where
  "decode_component s = unescape (map (\<lambda>c. if c = CHR ''+'' then CHR '' '' else c) s)"

text \<open>The key and the value of one field: the text before and after its first \<^verbatim>\<open>=\<close>.\<close>

definition field_key :: "string \<Rightarrow> string" where
  "field_key seg = decode_component (takeWhile (\<lambda>c. c \<noteq> CHR ''='') seg)"

definition field_value :: "string \<Rightarrow> string" where
  "field_value seg = decode_component (drop 1 (dropWhile (\<lambda>c. c \<noteq> CHR ''='') seg))"

text \<open>
  \<^verbatim>\<open>addKeyValue\<close>: a new key gets the string; a key already there gets an array, the
  new value last.
\<close>

fun addKeyValue :: "qsobj \<Rightarrow> string \<Rightarrow> string \<Rightarrow> qsobj" where
  "addKeyValue [] k v = [(k, QStr v)]"
| "addKeyValue ((k', x) # obj) k v =
     (if k' = k then
        (k', (case x of QStr u \<Rightarrow> QArr [u, v] | QArr us \<Rightarrow> QArr (us @ [v]))) # obj
      else (k', x) # addKeyValue obj k v)"

definition add_field :: "qsobj \<Rightarrow> string \<Rightarrow> qsobj" where
  "add_field obj seg =
     (if seg = [] then obj else addKeyValue obj (field_key seg) (field_value seg))"

text \<open>At most 1000 fields are read (\<^verbatim>\<open>maxKeys\<close>); an empty field is skipped.\<close>

definition fields_of :: "string \<Rightarrow> string list" where
  "fields_of message = take 1000 (split_on (CHR ''&'') message)"

definition qs_parse :: "string \<Rightarrow> qsobj" where
  "qs_parse message = foldl add_field [] (fields_of message)"

section \<open>Documents, responses and the client object\<close>

text \<open>What \<^verbatim>\<open>JSON.parse\<close> returns. An object keeps its members in order; a later
  member of the same name hides an earlier one.\<close>

datatype json =
    JNull
  | JBool bool
  | JNum int
  | JStr string
  | JArr "json list"
  | JObj "(string \<times> json) list"

text \<open>Reading a property: \<open>None\<close> is \<^verbatim>\<open>undefined\<close>. Only an object has the properties
  the client reads (\<^verbatim>\<open>heos\<close>, \<^verbatim>\<open>payload\<close>, \<^verbatim>\<open>result\<close>, \<^verbatim>\<open>command\<close>,
  \<^verbatim>\<open>message\<close>).\<close>

fun property :: "json \<Rightarrow> string \<Rightarrow> json option" where
  "property (JObj members) k = map_of (rev members) k"
| "property _ k = None"

fun truthy :: "json \<Rightarrow> bool" where
  "truthy JNull = False"
| "truthy (JBool b) = b"
| "truthy (JNum n) = (n \<noteq> 0)"
| "truthy (JStr s) = (s \<noteq> [])"
| "truthy (JArr _) = True"
| "truthy (JObj _) = True"

text \<open>The errors the client creates, and the exceptions that leave an event handler
  uncaught.\<close>

datatype js_error =
    Not_connected
  | Send_Timeout
  | Unknown_Heos_Response
  | Closed
  | Transport_error string
  | Type_error

datatype uncaught = SyntaxError | TypeError | Unhandled_error_event

record response =
  payload :: json
  rsp_command :: json
  message :: qsobj

text \<open>\<^verbatim>\<open>_responseParser\<close> returns the response object or an \<^verbatim>\<open>Error\<close> object.\<close>

datatype parsed = Reply response | Error_object js_error

text \<open>\<^verbatim>\<open>querystring.parse\<close> of a value that is not a string is the empty object.\<close>

fun parse_message :: "json \<Rightarrow> qsobj" where
  "parse_message (JStr m) = qs_parse m"
| "parse_message _ = []"

text \<open>\<^verbatim>\<open>_responseParser({ heos, payload = null })\<close>. Destructuring \<^verbatim>\<open>null\<close> throws a
  TypeError; a default applies where the property is \<^verbatim>\<open>undefined\<close>.\<close>

definition responseParser :: "json \<Rightarrow> uncaught + parsed" where
  "responseParser doc =
     (if doc = JNull then Inl TypeError
      else
        let heos = property doc ''heos'';
            payload = (case property doc ''payload'' of None \<Rightarrow> JNull | Some p \<Rightarrow> p)
        in (case heos of
              None \<Rightarrow> Inr (Error_object Unknown_Heos_Response)
            | Some h \<Rightarrow>
                if truthy h then
                  let command = (case property h ''command'' of None \<Rightarrow> JNull | Some c \<Rightarrow> c);
                      message = (case property h ''message'' of None \<Rightarrow> JStr [] | Some m \<Rightarrow> m);
                      parsedMessage = parse_message message
                  in Inr (Reply \<lparr> payload = payload, rsp_command = command,
                                   message = parsedMessage \<rparr>)
                else Inr (Error_object Unknown_Heos_Response)))"

text \<open>The connection states, and what a promise settles with.\<close>

datatype conn_state = Disconnected | Connecting | Connected | Disconnecting

fun state_name :: "conn_state \<Rightarrow> string" where
  "state_name Disconnected = ''disconnected''"
| "state_name Connecting = ''connecting''"
| "state_name Connected = ''connected''"
| "state_name Disconnecting = ''disconnecting''"

datatype val = Undefined | Response response | Document json | Object qsobj

datatype result = Fulfilled val | Rejected js_error

text \<open>The argument of an \<^verbatim>\<open>emit\<close>.\<close>

datatype arg =
    No_arg
  | State_arg conn_state
  | Message_arg qsobj
  | Event_arg string qsobj
  | Error_arg js_error

text \<open>
  A reaction waiting for a promise, one constructor for each \<^verbatim>\<open>.then\<close>,
  \<^verbatim>\<open>.catch\<close> and \<^verbatim>\<open>await\<close> of the source outside \<^verbatim>\<open>send\<close>:
  \<^item> \<open>ThenPayload p\<close>, \<open>ThenMessage p\<close>: \<^verbatim>\<open>.then(result => result.payload)\<close> and
    \<^verbatim>\<open>.then(result => result.message)\<close>, settling the promise \<open>p\<close> they return;
  \<^item> \<open>Handshake q\<close>: the reaction of \<^verbatim>\<open>_connect\<close> to \<^verbatim>\<open>systemRegisterForChangeEvents\<close>;
  \<^item> \<open>ConnectResume q\<close>, \<open>DisconnectResume d\<close>: the rest of \<^verbatim>\<open>_connect\<close> and of
    \<^verbatim>\<open>_disconnect\<close> after their \<^verbatim>\<open>await\<close>;
  \<^item> \<open>ReconnectStart r\<close>, \<open>ReconnectConnect r\<close>, \<open>ReconnectDone r\<close>: the chain of
    \<^verbatim>\<open>reconnect\<close>;
  \<^item> \<open>Probe\<close>, \<open>WatchdogReset\<close>: the reactions of \<^verbatim>\<open>_onWatchdog\<close>.
\<close>

datatype reaction =
    ThenPayload nat
  | ThenMessage nat
  | Handshake nat
  | ConnectResume nat
  | DisconnectResume nat
  | ReconnectStart nat
  | ReconnectConnect nat
  | ReconnectDone nat
  | Probe
  | WatchdogReset

text \<open>
  A microtask: \<open>Send_settled p res\<close> is the \<^verbatim>\<open>.then/.catch\<close> of \<^verbatim>\<open>send\<close> for the call
  whose promise is \<open>p\<close>, to run on the outcome \<open>res\<close> of the race; \<open>React k res\<close> is the
  reaction \<open>k\<close>, to run on the outcome \<open>res\<close> of the promise it waited for.
\<close>

datatype job = Send_settled nat result | React reaction result

record sendQueueItem =
  ident :: nat
  command :: string
  qs :: params

text \<open>
  The client object with the part of the Node runtime it lives in. The first group are
  the fields of the object (\<^verbatim>\<open>this._state\<close> is \<open>state\<close>, and so on; a field that is
  \<^verbatim>\<open>undefined\<close> or \<^verbatim>\<open>null\<close> is \<open>None\<close>; \<open>watchdogPromise\<close> says whether
  \<^verbatim>\<open>this._watchdogPromise\<close> holds a promise). A promise, a socket and an interval are
  known by a number; the socket opened for the connect promise \<open>q\<close> has the number \<open>q\<close>.
  The second group is the runtime: the promises settled so far, the reactions waiting
  for a promise, the microtask queue, the sockets created, what was written to them,
  the sockets that still carry the listeners of \<^verbatim>\<open>_connect\<close>, the \<^verbatim>\<open>once('close')\<close>
  listeners of \<^verbatim>\<open>_disconnect\<close>, the sockets ended, the running intervals, the send
  calls whose timer is still to fire, what was emitted, and whether an \<^verbatim>\<open>'error'\<close>
  listener is registered.
\<close>

record client =
  address :: string
  state :: conn_state
  sendQueue :: "sendQueueItem list"
  currentSendQueueItem :: "sendQueueItem option"
  rxBuffer :: string
  socket :: "nat option"
  connectPromise :: "nat option"
  disconnectPromise :: "nat option"
  reconnectPromise :: "nat option"
  watchdog :: "nat option"
  watchdogPromise :: bool
  fresh :: nat
  settled :: "(nat \<times> result) list"
  waiters :: "(nat \<times> reaction) list"
  jobs :: "job list"
  opened :: "nat list"
  written :: "(nat \<times> string) list"
  listening :: "nat list"
  closeOnce :: "(nat \<times> nat) list"
  ended :: "nat list"
  intervals :: "nat list"
  timers :: "nat list"
  emitted :: "(string \<times> arg) list"
  errorListener :: bool

text \<open>The object as the constructor leaves it.\<close>

definition new_client :: "string \<Rightarrow> client" where
  "new_client a =
     \<lparr> address = a, state = Disconnected, sendQueue = [], currentSendQueueItem = None,
       rxBuffer = [], socket = None, connectPromise = None, disconnectPromise = None,
       reconnectPromise = None, watchdog = None, watchdogPromise = False,
       fresh = 0, settled = [], waiters = [], jobs = [], opened = [], written = [],
       listening = [], closeOnce = [], ended = [], intervals = [], timers = [],
       emitted = [],
       errorListener = False \<rparr>"

subsection \<open>Promises\<close>

definition outcome :: "client \<Rightarrow> nat \<Rightarrow> result option" where
  "outcome st p = map_of (settled st) p"

text \<open>The reactions waiting for \<open>p\<close> become microtasks.\<close>

definition release :: "nat \<Rightarrow> result \<Rightarrow> client \<Rightarrow> client" where
  "release p res st =
     st\<lparr> jobs := jobs st @ map (\<lambda>w. React (snd w) res) (filter (\<lambda>w. fst w = p) (waiters st)),
         waiters := filter (\<lambda>w. fst w \<noteq> p) (waiters st) \<rparr>"

text \<open>A promise settles once; settling it again changes nothing.\<close>

definition settle :: "nat \<Rightarrow> result \<Rightarrow> client \<Rightarrow> client" where
  "settle p res st =
     (case outcome st p of
        Some _ \<Rightarrow> st
      | None \<Rightarrow> release p res (st\<lparr> settled := settled st @ [(p, res)] \<rparr>))"

text \<open>
  The promise of a \<^verbatim>\<open>send\<close> call is the race of the queue item's promise and the
  timer: the first \<^verbatim>\<open>resolve\<close> or \<^verbatim>\<open>reject\<close> decides it, and queues the
  \<^verbatim>\<open>.then/.catch\<close> of \<^verbatim>\<open>send\<close>, which runs before the caller's reactions.
\<close>

definition settle_send :: "nat \<Rightarrow> result \<Rightarrow> client \<Rightarrow> client" where
  "settle_send p res st =
     (case outcome st p of
        Some _ \<Rightarrow> st
      | None \<Rightarrow> st\<lparr> settled := settled st @ [(p, res)],
                    jobs := jobs st @ [Send_settled p res] \<rparr>)"

text \<open>\<^verbatim>\<open>.then(k)\<close> or \<^verbatim>\<open>await\<close> on the promise \<open>p\<close>.\<close>

definition await :: "nat \<Rightarrow> reaction \<Rightarrow> client \<Rightarrow> client" where
  "await p k st =
     (case outcome st p of
        Some res \<Rightarrow> st\<lparr> jobs := jobs st @ [React k res] \<rparr>
      | None \<Rightarrow> st\<lparr> waiters := waiters st @ [(p, k)] \<rparr>)"

text \<open>What an \<^verbatim>\<open>async\<close> method returns: \<open>Now\<close> when it returned without a promise of
  its own (its result is already fulfilled with \<^verbatim>\<open>undefined\<close>), or the promise whose
  outcome its result takes.\<close>

datatype ret = Now | Promise nat

definition ret_of :: "nat option \<Rightarrow> ret" where
  "ret_of p = (case p of None \<Rightarrow> Now | Some q \<Rightarrow> Promise q)"

definition then_ret :: "ret \<Rightarrow> reaction \<Rightarrow> client \<Rightarrow> client" where
  "then_ret r k st =
     (case r of
        Now \<Rightarrow> st\<lparr> jobs := jobs st @ [React k (Fulfilled Undefined)] \<rparr>
      | Promise p \<Rightarrow> await p k st)"

subsection \<open>Events of the emitter\<close>

definition emit :: "string \<Rightarrow> arg \<Rightarrow> client \<Rightarrow> client" where
  "emit channel a st = st\<lparr> emitted := emitted st @ [(channel, a)] \<rparr>"

definition setState :: "conn_state \<Rightarrow> client \<Rightarrow> client" where
  "setState s st = emit ''state'' (State_arg s) (emit (state_name s) No_arg (st\<lparr> state := s \<rparr>))"

section \<open>The dispatch queue\<close>

text \<open>\<^verbatim>\<open>_write\<close>: throws \<^verbatim>\<open>not_connected\<close> without a socket, else writes one request.\<close>

definition request :: "string \<Rightarrow> params \<Rightarrow> string" where
  "request cmd q = ''heos://'' @ cmd @ ''?'' @ unescape (stringify q) @ DELIMITER"

definition write_socket :: "sendQueueItem \<Rightarrow> client \<Rightarrow> js_error + client" where
  "write_socket item st =
     (case socket st of
        None \<Rightarrow> Inl Not_connected
      | Some s \<Rightarrow> Inr (st\<lparr> written := written st @ [(s, request (command item) (qs item))] \<rparr>))"

lemma currentSendQueueItem_settle_send [simp]:
  "currentSendQueueItem (settle_send p res st) = currentSendQueueItem st"
  by (simp add: settle_send_def split: option.splits)

text \<open>\<^verbatim>\<open>_nextSendQueueItem\<close>, with the recursive call of its \<^verbatim>\<open>catch\<close> branch.\<close>

function nextSendQueueItem :: "client \<Rightarrow> client" where
  "nextSendQueueItem st =
     (if currentSendQueueItem st \<noteq> None then st
      else
        (case sendQueue st of
           [] \<Rightarrow> st\<lparr> currentSendQueueItem := None \<rparr>
         | item # rest \<Rightarrow>
             (let st1 = st\<lparr> currentSendQueueItem := Some item, sendQueue := rest \<rparr>
              in (case write_socket item st1 of
                    Inr st2 \<Rightarrow> st2
                  | Inl err \<Rightarrow>
                      nextSendQueueItem (settle_send (ident item) (Rejected err) st1)))))"
  by pat_completeness auto
termination
  by (relation "measure (\<lambda>st. if currentSendQueueItem st = None then 1 else 0)") auto

declare nextSendQueueItem.simps [simp del]

text \<open>\<^verbatim>\<open>send\<close>, up to the point where it returns its promise: the executor of the
  first promise of the race queues the item and calls \<^verbatim>\<open>_nextSendQueueItem\<close>, the
  executor of the second starts the timer (\<^verbatim>\<open>SEND_TIMEOUT\<close>, 5000 ms). The firing of
  the timer is a task of its own (\<open>send_timeout\<close>): it rejects the race, if that is
  still undecided.\<close>

definition send :: "string \<Rightarrow> params \<Rightarrow> client \<Rightarrow> nat \<times> client" where
  "send cmd q st =
     (let p = fresh st;
          sendQueueItem = \<lparr> ident = p, command = cmd, qs = q \<rparr>;
          st1 = st\<lparr> fresh := Suc p, sendQueue := sendQueue st @ [sendQueueItem] \<rparr>;
          st2 = nextSendQueueItem st1
      in (p, st2\<lparr> timers := timers st2 @ [p] \<rparr>))"

definition send_timeout :: "nat \<Rightarrow> client \<Rightarrow> client" where
  "send_timeout p st =
     (if p \<in> set (timers st) then
        settle_send p (Rejected Send_Timeout) (st\<lparr> timers := removeAll p (timers st) \<rparr>)
      else st)"

section \<open>The receive buffer: framing and routing\<close>

definition event_prefix :: string where
  "event_prefix = ''event/''"

text \<open>The test \<^verbatim>\<open>response.command && response.command.startsWith('event/')\<close>: a
  command that is truthy and not a string has no \<^verbatim>\<open>startsWith\<close>, and the call
  throws a TypeError.\<close>

fun command_is_event :: "json \<Rightarrow> uncaught + bool" where
  "command_is_event (JStr s) = Inr (s \<noteq> [] \<and> take (length event_prefix) s = event_prefix)"
| "command_is_event c = (if truthy c then Inl TypeError else Inr False)"

fun string_of :: "json \<Rightarrow> string" where
  "string_of (JStr s) = s"
| "string_of _ = []"

text \<open>
  The body of \<^verbatim>\<open>_parseRxBuffer\<close> after \<^verbatim>\<open>_responseParser\<close>: what is done with one
  response. The flag of the result says whether the method goes on to its recursive
  call (\<open>True\<close>) or has returned (\<open>False\<close>, the \<^verbatim>\<open>return reject(response)\<close> and
  \<^verbatim>\<open>return resolve(response)\<close> of the branch with a current item). An
  \<^verbatim>\<open>Error\<close> object has no \<^verbatim>\<open>command\<close>. \<^verbatim>\<open>emit('error', ...)\<close> throws when no
  listener is registered for it.
\<close>

definition route :: "parsed \<Rightarrow> client \<Rightarrow> uncaught + (bool \<times> client)" where
  "route response st =
     (case response of
        Error_object e \<Rightarrow>
          (case currentSendQueueItem st of
             Some item \<Rightarrow> Inr (False, settle_send (ident item) (Rejected e) st)
           | None \<Rightarrow> Inr (True, st))
      | Reply r \<Rightarrow>
          (case command_is_event (rsp_command r) of
             Inl x \<Rightarrow> Inl x
           | Inr True \<Rightarrow>
               (let event = drop (length event_prefix) (string_of (rsp_command r));
                    st1 = emit ''event'' (Event_arg event (message r)) st
                in if event = ''error'' \<and> \<not> errorListener st1 then Inl Unhandled_error_event
                   else Inr (True, emit event (Message_arg (message r)) st1))
           | Inr False \<Rightarrow>
               (case currentSendQueueItem st of
                  Some item \<Rightarrow> Inr (False, settle_send (ident item) (Fulfilled (Response r)) st)
                | None \<Rightarrow> Inr (True, st))))"

lemma split_DELIMITER_not_Nil [simp]: "split_DELIMITER s \<noteq> []"
  by (induction s rule: split_DELIMITER.induct) (auto split: list.splits)

lemma join_split_DELIMITER [simp]: "join_DELIMITER (split_DELIMITER s) = s"
proof (induction s rule: split_DELIMITER.induct)
  case (1 c d cs)
  show ?case
  proof (cases "c = CHR 0x0D \<and> d = CHR 0x0A")
    case True
    obtain u us where "split_DELIMITER cs = u # us"
      by (cases "split_DELIMITER cs") auto
    with True 1 show ?thesis by (auto simp: DELIMITER_def)
  next
    case False
    obtain u us where u: "split_DELIMITER (d # cs) = u # us"
      by (cases "split_DELIMITER (d # cs)") auto
    with False 1 have "join_DELIMITER (u # us) = d # cs" by auto
    then have "join_DELIMITER ((c # u) # us) = c # d # cs"
      by (cases us) auto
    with False u show ?thesis by auto
  qed
qed auto

lemma length_join_tl_split:
  assumes "1 < length (split_DELIMITER s)"
  shows "length (join_DELIMITER (tl (split_DELIMITER s))) < length s"
proof -
  obtain u v us where e: "split_DELIMITER s = u # v # us"
    using assms by (cases "split_DELIMITER s"; cases "tl (split_DELIMITER s)") auto
  have "length (join_DELIMITER (u # v # us)) = length s"
    by (simp flip: e)
  then show ?thesis by (simp add: e DELIMITER_def)
qed

lemma rxBuffer_settle_send [simp]: "rxBuffer (settle_send p res st) = rxBuffer st"
  by (simp add: settle_send_def split: option.splits)

lemma rxBuffer_emit [simp]: "rxBuffer (emit ch a st) = rxBuffer st"
  by (simp add: emit_def)

lemma rxBuffer_route: "route response st = Inr (go, st') \<Longrightarrow> rxBuffer st' = rxBuffer st"
  by (auto simp: route_def Let_def split: parsed.splits option.splits sum.splits bool.splits if_splits)

text \<open>
  \<^verbatim>\<open>_parseRxBuffer\<close>. \<open>parse\<close> stands for \<^verbatim>\<open>JSON.parse\<close>, with \<open>None\<close> for its
  SyntaxError. An exception leaves the method, and the \<^verbatim>\<open>'data'\<close> handler that
  called it, uncaught.
\<close>

function parseRxBuffer :: "(string \<Rightarrow> json option) \<Rightarrow> client \<Rightarrow> uncaught + client" where
  "parseRxBuffer parse st =
     (let rxBufferArr = split_DELIMITER (rxBuffer st) in
      if 1 < length rxBufferArr then
        (let rxBufferItem = hd rxBufferArr;
             st1 = st\<lparr> rxBuffer := join_DELIMITER (tl rxBufferArr) \<rparr>
         in (case parse rxBufferItem of
               None \<Rightarrow> Inl SyntaxError
             | Some doc \<Rightarrow>
                 (case responseParser doc of
                    Inl x \<Rightarrow> Inl x
                  | Inr response \<Rightarrow>
                      (case route response st1 of
                         Inl x \<Rightarrow> Inl x
                       | Inr (go, st2) \<Rightarrow> if go then parseRxBuffer parse st2 else Inr st2))))
      else Inr st)"
  by pat_completeness auto
termination
  by (relation "measure (\<lambda>(parse, st). length (rxBuffer st))")
     (auto dest!: rxBuffer_route simp: length_join_tl_split)

declare parseRxBuffer.simps [simp del]

section \<open>The connection\<close>

text \<open>The executor of the promise \<^verbatim>\<open>_connect\<close> creates: the state change, the new
  socket with its listeners, and the connect it starts.\<close>

definition connect_open :: "nat \<Rightarrow> client \<Rightarrow> client" where
  "connect_open q st =
     (let st1 = setState Connecting st;
          st2 = st1\<lparr> socket := Some q, opened := opened st1 @ [q],
                     listening := listening st1 @ [q] \<rparr>
      in st2\<lparr> connectPromise := Some q \<rparr>)"

text \<open>\<^verbatim>\<open>_connect\<close>. In the state \<^verbatim>\<open>disconnecting\<close> it waits for the disconnect, whatever
  its outcome, and then goes on to the executor without looking at the state again.\<close>

definition priv_connect :: "client \<Rightarrow> ret \<times> client" where
  "priv_connect st =
     (if state st = Connected then (Now, st)
      else if state st = Connecting then (ret_of (connectPromise st), st)
      else
        (let q = fresh st; st0 = st\<lparr> fresh := Suc q \<rparr> in
         if state st = Disconnecting then
           (Promise q, then_ret (ret_of (disconnectPromise st0)) (ConnectResume q) st0)
         else (Promise q, connect_open q st0)))"

definition connect :: "client \<Rightarrow> ret \<times> client" where
  "connect st = priv_connect st"

text \<open>The last part of \<^verbatim>\<open>_disconnect\<close>: the state change and the promise whose
  executor listens for \<^verbatim>\<open>'close'\<close> once and ends the socket. Without a socket the
  executor throws, and the promise is rejected.\<close>

definition disconnect_close :: "nat \<Rightarrow> client \<Rightarrow> client" where
  "disconnect_close d st =
     (let st1 = setState Disconnecting st in
      (case socket st1 of
         None \<Rightarrow> settle d (Rejected Type_error) (st1\<lparr> disconnectPromise := Some d \<rparr>)
       | Some s \<Rightarrow>
           st1\<lparr> closeOnce := closeOnce st1 @ [(s, d)], ended := ended st1 @ [s],
                disconnectPromise := Some d \<rparr>))"

definition priv_disconnect :: "client \<Rightarrow> ret \<times> client" where
  "priv_disconnect st =
     (if state st = Disconnected then (Now, st)
      else if state st = Disconnecting then (ret_of (disconnectPromise st), st)
      else
        (let d = fresh st; st0 = st\<lparr> fresh := Suc d \<rparr> in
         if state st = Connecting then
           (Promise d, then_ret (ret_of (connectPromise st0)) (DisconnectResume d) st0)
         else (Promise d, disconnect_close d st0)))"

text \<open>\<^verbatim>\<open>disconnect\<close>: \<^verbatim>\<open>clearInterval\<close> stops the interval; the field
  \<^verbatim>\<open>this._watchdog\<close> keeps the handle.\<close>

definition disconnect :: "client \<Rightarrow> ret \<times> client" where
  "disconnect st =
     priv_disconnect
       (case watchdog st of
          None \<Rightarrow> st
        | Some t \<Rightarrow> st\<lparr> intervals := removeAll t (intervals st) \<rparr>)"

definition reconnect :: "client \<Rightarrow> ret \<times> client" where
  "reconnect st =
     (case reconnectPromise st of
        Some r \<Rightarrow> (Promise r, st)
      | None \<Rightarrow>
          (let r = fresh st in
           (Promise r,
            st\<lparr> fresh := Suc r, reconnectPromise := Some r,
                jobs := jobs st @ [React (ReconnectStart r) (Fulfilled Undefined)] \<rparr>)))"

subsection \<open>Commands\<close>

definition systemRegisterForChangeEvents :: "client \<Rightarrow> nat \<times> client" where
  "systemRegisterForChangeEvents st =
     send ''system/register_for_change_events'' [(''enable'', ''on'')] st"

text \<open>\<^verbatim>\<open>promise.then(k)\<close>: the new promise, with \<open>k\<close> waiting for the old one.\<close>

definition then_new :: "nat \<Rightarrow> (nat \<Rightarrow> reaction) \<Rightarrow> client \<Rightarrow> nat \<times> client" where
  "then_new p k st = (let n = fresh st in (n, await p (k n) (st\<lparr> fresh := Suc n \<rparr>)))"

text \<open>What a variable of \<^verbatim>\<open>playerGetPlayers\<close> can hold, and the truth value an
  \<^verbatim>\<open>if\<close> gives it: a promise is an object, and every object is truthy.\<close>

datatype js_value = JS_undefined | JS_promise nat | JS_document json

fun to_boolean :: "js_value \<Rightarrow> bool" where
  "to_boolean JS_undefined = False"
| "to_boolean (JS_promise p) = True"
| "to_boolean (JS_document v) = truthy v"

definition playerGetPlayers :: "client \<Rightarrow> nat \<times> client" where
  "playerGetPlayers st =
     (let (p, st1) = send ''player/get_players'' [] st;
          (players, st2) = then_new p ThenPayload st1
      in if to_boolean (JS_promise players) then (players, st2)
         else (let (p', st3) = send ''player/get_players'' [] st2
               in then_new p' ThenPayload st3))"

definition playerGetVolume :: "string \<Rightarrow> client \<Rightarrow> nat \<times> client" where
  "playerGetVolume pid st =
     (let (p, st1) = send ''player/get_volume'' [(''pid'', pid)] st
      in then_new p ThenMessage st1)"

text \<open>\<^verbatim>\<open>_onWatchdog\<close>.\<close>

definition onWatchdog :: "client \<Rightarrow> client" where
  "onWatchdog st =
     (if watchdogPromise st then st
      else if state st = Connecting then st
      else if state st = Disconnecting then st
      else (let (p, st1) = playerGetPlayers st
            in (await p Probe st1)\<lparr> watchdogPromise := True \<rparr>))"

section \<open>Microtasks\<close>

text \<open>The reaction \<open>k\<close> run on the outcome it waited for.\<close>

fun react :: "reaction \<Rightarrow> result \<Rightarrow> client \<Rightarrow> client" where
  "react (ThenPayload p) res st =
     settle p (case res of
                 Fulfilled (Response r) \<Rightarrow> Fulfilled (Document (payload r))
               | Fulfilled _ \<Rightarrow> Rejected Type_error
               | Rejected e \<Rightarrow> Rejected e) st"
| "react (ThenMessage p) res st =
     settle p (case res of
                 Fulfilled (Response r) \<Rightarrow> Fulfilled (Object (message r))
               | Fulfilled _ \<Rightarrow> Rejected Type_error
               | Rejected e \<Rightarrow> Rejected e) st"
| "react (Handshake q) res st =
     (case res of
        Fulfilled _ \<Rightarrow>
          (let st1 = setState Connected (st\<lparr> connectPromise := None \<rparr>);
               st2 = (case watchdog st1 of
                        None \<Rightarrow>
                          (let t = fresh st1
                           in st1\<lparr> fresh := Suc t, watchdog := Some t,
                                   intervals := intervals st1 @ [t] \<rparr>)
                      | Some _ \<Rightarrow> st1)
           in settle q (Fulfilled Undefined) st2)
      | Rejected e \<Rightarrow> snd (priv_disconnect (st\<lparr> connectPromise := None \<rparr>)))"
| "react (ConnectResume q) res st = connect_open q st"
| "react (DisconnectResume d) res st = disconnect_close d st"
| "react (ReconnectStart r) res st =
     (let st1 = emit ''reconnecting'' No_arg st;
          (d, st2) = priv_disconnect st1
      in then_ret d (ReconnectConnect r) st2)"
| "react (ReconnectConnect r) res st =
     (let (c, st1) = priv_connect st
      in then_ret c (ReconnectDone r) st1)"
| "react (ReconnectDone r) res st =
     (case res of
        Fulfilled _ \<Rightarrow>
          settle r (Fulfilled Undefined)
            ((emit ''reconnected'' No_arg st)\<lparr> reconnectPromise := None \<rparr>)
      | Rejected e \<Rightarrow>
          settle r (Rejected e)
            ((emit ''reconnect_error'' (Error_arg e) st)\<lparr> reconnectPromise := None \<rparr>))"
| "react Probe res st =
     (case res of
        Fulfilled _ \<Rightarrow> st\<lparr> watchdogPromise := False \<rparr>
      | Rejected e \<Rightarrow>
          (let st1 = emit ''watchdog_error'' No_arg st;
               (r, st2) = reconnect st1
           in then_ret r WatchdogReset st2))"
| "react WatchdogReset res st = st\<lparr> watchdogPromise := False \<rparr>"

text \<open>
  One microtask. The \<^verbatim>\<open>.then/.catch\<close> of \<^verbatim>\<open>send\<close> forgets the current item, calls
  \<^verbatim>\<open>_nextSendQueueItem\<close> and passes the outcome on to the caller's reactions.
  Microtasks run in the order in which their promises were settled; the extra turns a
  promise takes to adopt another promise are not counted.
\<close>

fun run_job :: "job \<Rightarrow> client \<Rightarrow> client" where
  "run_job (Send_settled p res) st =
     release p res (nextSendQueueItem (st\<lparr> currentSendQueueItem := None \<rparr>))"
| "run_job (React k res) st = react k res st"

text \<open>
  The microtask queue is emptied after every task. That this comes to an end is shown
  with a weight for every reaction: a reaction queues or registers reactions of less
  weight than its own, and \<^verbatim>\<open>_nextSendQueueItem\<close> pays for the rejection it queues
  with the item it takes off the send queue.
\<close>

fun weight :: "reaction \<Rightarrow> nat" where
  "weight (ReconnectStart _) = 5"
| "weight (ReconnectConnect _) = 3"
| "weight (Handshake _) = 2"
| "weight Probe = 7"
| "weight _ = 1"

fun job_weight :: "job \<Rightarrow> nat" where
  "job_weight (Send_settled _ _) = 1"
| "job_weight (React k _) = weight k"

definition pending_work :: "client \<Rightarrow> nat" where
  "pending_work st =
     sum_list (map job_weight (jobs st))
       + sum_list (map (\<lambda>w. weight (snd w)) (waiters st))
       + length (sendQueue st)"

lemma sum_list_filter_split:
  fixes f :: "'a \<Rightarrow> nat"
  shows "sum_list (map f (filter P xs)) + sum_list (map f (filter (\<lambda>x. \<not> P x) xs))
           = sum_list (map f xs)"
  by (induction xs) auto

lemma pending_work_release [simp]: "pending_work (release p res st) = pending_work st"
  using sum_list_filter_split [of "\<lambda>w. weight (snd w)" "\<lambda>w. fst w = p" "waiters st"]
  by (simp add: pending_work_def release_def comp_def)

lemma pending_work_settle [simp]: "pending_work (settle p res st) = pending_work st"
  by (simp add: settle_def split: option.splits) (simp add: pending_work_def)

lemma pending_work_settle_send: "pending_work (settle_send p res st) \<le> Suc (pending_work st)"
  by (simp add: settle_send_def pending_work_def split: option.splits)

lemma pending_work_await [simp]: "pending_work (await p k st) = pending_work st + weight k"
  by (simp add: await_def pending_work_def split: option.splits)

lemma pending_work_then_ret [simp]: "pending_work (then_ret r k st) = pending_work st + weight k"
  by (simp add: then_ret_def split: ret.splits) (simp add: pending_work_def)

lemma pending_work_emit [simp]: "pending_work (emit ch a st) = pending_work st"
  by (simp add: emit_def pending_work_def)

lemma pending_work_setState [simp]: "pending_work (setState s st) = pending_work st"
  by (simp add: setState_def) (simp add: pending_work_def)

lemma pending_work_connect_open [simp]: "pending_work (connect_open q st) = pending_work st"
  by (simp add: connect_open_def Let_def pending_work_def setState_def emit_def)

lemma pending_work_disconnect_close [simp]:
  "pending_work (disconnect_close d st) = pending_work st"
  by (simp add: disconnect_close_def Let_def split: option.splits)
     (simp add: pending_work_def setState_def emit_def)

lemma pending_work_priv_connect: "pending_work (snd (priv_connect st)) \<le> Suc (pending_work st)"
  by (simp add: priv_connect_def Let_def) (simp add: pending_work_def)

lemma pending_work_priv_disconnect:
  "pending_work (snd (priv_disconnect st)) \<le> Suc (pending_work st)"
  by (simp add: priv_disconnect_def Let_def) (simp add: pending_work_def)

lemma pending_work_reconnect: "pending_work (snd (reconnect st)) \<le> pending_work st + 5"
  by (simp add: reconnect_def Let_def pending_work_def split: option.splits)

lemma pending_work_nextSendQueueItem:
  "pending_work (nextSendQueueItem st) \<le> pending_work st"
proof (induction st rule: nextSendQueueItem.induct)
  case (1 st)
  show ?case
  proof (cases "currentSendQueueItem st \<noteq> None")
    case True
    then show ?thesis by (subst nextSendQueueItem.simps) simp
  next
    case False
    show ?thesis
    proof (cases "sendQueue st")
      case Nil
      with False show ?thesis
        by (subst nextSendQueueItem.simps) (simp add: pending_work_def)
    next
      case (Cons item rest)
      let ?st1 = "st\<lparr> currentSendQueueItem := Some item, sendQueue := rest \<rparr>"
      have w1: "Suc (pending_work ?st1) = pending_work st"
        by (simp add: pending_work_def Cons)
      show ?thesis
      proof (cases "write_socket item ?st1")
        case (Inr st2)
        then have "pending_work st2 = pending_work ?st1"
          by (auto simp: write_socket_def pending_work_def split: option.splits)
        with False Cons Inr w1 show ?thesis
          by (subst nextSendQueueItem.simps) (simp add: Let_def)
      next
        case (Inl err)
        let ?st3 = "settle_send (ident item) (Rejected err) ?st1"
        have "nextSendQueueItem ?st3 = ?st3"
          by (subst nextSendQueueItem.simps) simp
        moreover have "pending_work ?st3 \<le> Suc (pending_work ?st1)"
          by (rule pending_work_settle_send)
        ultimately show ?thesis using False Cons Inl w1
          by (subst nextSendQueueItem.simps) (simp add: Let_def)
      qed
    qed
  qed
qed

lemma pending_work_react:
  "pending_work (react k res st) < pending_work st + weight k"
proof (cases k)
  case (Handshake q)
  have "pending_work (snd (priv_disconnect (st\<lparr> connectPromise := None \<rparr>)))
          \<le> Suc (pending_work (st\<lparr> connectPromise := None \<rparr>))"
    by (rule pending_work_priv_disconnect)
  moreover have "pending_work (st\<lparr> connectPromise := None \<rparr>) = pending_work st"
    by (simp add: pending_work_def)
  moreover have "pending_work (case watchdog st' of
                      None \<Rightarrow>
                        (let t = fresh st'
                         in st'\<lparr> fresh := Suc t, watchdog := Some t,
                                 intervals := intervals st' @ [t] \<rparr>)
                    | Some _ \<Rightarrow> st') = pending_work st'" for st'
    by (simp add: pending_work_def Let_def split: option.splits)
  ultimately show ?thesis using Handshake
    by (cases res) (simp_all add: Let_def)
next
  case (ReconnectStart r)
  have "pending_work (snd (priv_disconnect (emit ''reconnecting'' No_arg st)))
          \<le> Suc (pending_work (emit ''reconnecting'' No_arg st))"
    by (rule pending_work_priv_disconnect)
  then show ?thesis using ReconnectStart
    by (auto simp: Let_def split: prod.splits)
next
  case (ReconnectConnect r)
  then show ?thesis using pending_work_priv_connect [of st]
    by (auto simp: Let_def split: prod.splits)
next
  case (ReconnectDone r)
  then show ?thesis
    by (simp split: result.splits) (simp add: pending_work_def emit_def)
next
  case Probe
  have h: "pending_work (snd (reconnect (emit ''watchdog_error'' No_arg st)))
          \<le> pending_work (emit ''watchdog_error'' No_arg st) + 5"
    by (rule pending_work_reconnect)
  show ?thesis
  proof (cases res)
    case (Fulfilled v)
    with Probe show ?thesis by (simp add: pending_work_def)
  next
    case (Rejected e)
    with h Probe show ?thesis by (auto simp: Let_def split: prod.splits)
  qed
next
  case WatchdogReset
  then show ?thesis by (simp add: pending_work_def)
qed simp_all

lemma pending_work_run_job:
  "pending_work (run_job j st) < pending_work st + job_weight j"
proof (cases j)
  case (Send_settled p res)
  have "pending_work (nextSendQueueItem (st\<lparr> currentSendQueueItem := None \<rparr>))
          \<le> pending_work (st\<lparr> currentSendQueueItem := None \<rparr>)"
    by (rule pending_work_nextSendQueueItem)
  also have "\<dots> = pending_work st" by (simp add: pending_work_def)
  finally show ?thesis using Send_settled by simp
next
  case (React k res)
  then show ?thesis by (simp add: pending_work_react)
qed

function drain :: "client \<Rightarrow> client" where
  "drain st =
     (case jobs st of
        [] \<Rightarrow> st
      | j # js \<Rightarrow> drain (run_job j (st\<lparr> jobs := js \<rparr>)))"
  by pat_completeness auto
termination
proof (relation "measure pending_work")
  fix st :: client and j js
  assume "jobs st = j # js"
  then have "pending_work (st\<lparr> jobs := js \<rparr>) + job_weight j = pending_work st"
    by (simp add: pending_work_def)
  with pending_work_run_job [of j "st\<lparr> jobs := js \<rparr>"]
  show "(run_job j (st\<lparr> jobs := js \<rparr>), st) \<in> measure pending_work"
    by simp
qed simp

declare drain.simps [simp del]

section \<open>Tasks: calls, socket events and timers\<close>

text \<open>The callback of \<^verbatim>\<open>socket.connect\<close>: the handshake, with the reaction of
  \<^verbatim>\<open>_connect\<close> waiting for it. A socket whose listeners were removed calls nothing.\<close>

definition socket_connect :: "nat \<Rightarrow> client \<Rightarrow> client" where
  "socket_connect s st =
     (if s \<in> set (listening st) then
        (let (p, st1) = systemRegisterForChangeEvents st in await p (Handshake s) st1)
      else st)"

text \<open>The \<^verbatim>\<open>'data'\<close> listener. A chunk is the octets it holds (the source turns every
  chunk into text by itself, which makes a difference only for a character of several
  octets split between two chunks).\<close>

definition socket_data :: "(string \<Rightarrow> json option) \<Rightarrow> nat \<Rightarrow> string \<Rightarrow> client \<Rightarrow> uncaught + client" where
  "socket_data parse s chunk st =
     (if s \<in> set (listening st) then parseRxBuffer parse (st\<lparr> rxBuffer := rxBuffer st @ chunk \<rparr>)
      else Inr st)"

text \<open>The \<^verbatim>\<open>'error'\<close> listener rejects the connect promise of its socket.\<close>

definition socket_error :: "nat \<Rightarrow> string \<Rightarrow> client \<Rightarrow> client" where
  "socket_error s err st =
     (if s \<in> set (listening st) then settle s (Rejected (Transport_error err)) st else st)"

text \<open>
  The socket \<open>s\<close> closes. The \<^verbatim>\<open>'close'\<close> listener of \<^verbatim>\<open>_connect\<close> works on
  \<^verbatim>\<open>this._socket\<close> (a TypeError when it is \<^verbatim>\<open>null\<close>): it removes that socket's
  listeners, forgets the socket and the connect promise, changes the state and rejects
  the connect promise of \<open>s\<close>. Then the \<^verbatim>\<open>once('close')\<close> listeners of
  \<^verbatim>\<open>_disconnect\<close> on \<open>s\<close> resolve their promises. A closed socket has no more events.
\<close>

definition socket_close :: "nat \<Rightarrow> client \<Rightarrow> uncaught + client" where
  "socket_close s st =
     (let onces = map snd (filter (\<lambda>w. fst w = s) (closeOnce st)) in
      if s \<in> set (listening st) then
        (case socket st of
           None \<Rightarrow> Inl TypeError
         | Some cur \<Rightarrow>
             (let st1 = st\<lparr> listening := filter (\<lambda>x. x \<noteq> cur \<and> x \<noteq> s) (listening st),
                             closeOnce := filter (\<lambda>w. fst w \<noteq> cur \<and> fst w \<noteq> s) (closeOnce st),
                             socket := None, connectPromise := None \<rparr>;
                  st2 = setState Disconnected st1;
                  st3 = settle s (Rejected Closed) st2
              in Inr (fold (\<lambda>d. settle d (Fulfilled Undefined)) onces st3)))
      else
        Inr (fold (\<lambda>d. settle d (Fulfilled Undefined)) onces
               (st\<lparr> closeOnce := filter (\<lambda>w. fst w \<noteq> s) (closeOnce st) \<rparr>)))"

text \<open>The interval of the watchdog fires, if it is still running.\<close>

definition watchdog_timer :: "nat \<Rightarrow> client \<Rightarrow> client" where
  "watchdog_timer t st = (if t \<in> set (intervals st) then onWatchdog st else st)"

text \<open>The calls a user of the object makes; what they return is not kept here.\<close>

datatype call =
    Call_send string params
  | Call_connect
  | Call_disconnect
  | Call_reconnect
  | Call_playerGetPlayers
  | Call_playerGetVolume string

fun perform :: "call \<Rightarrow> client \<Rightarrow> client" where
  "perform (Call_send cmd q) st = snd (send cmd q st)"
| "perform Call_connect st = snd (connect st)"
| "perform Call_disconnect st = snd (disconnect st)"
| "perform Call_reconnect st = snd (reconnect st)"
| "perform Call_playerGetPlayers st = snd (playerGetPlayers st)"
| "perform (Call_playerGetVolume pid) st = snd (playerGetVolume pid st)"

text \<open>
  A task of the event loop: a piece of user code making calls, a socket event, the
  timer of a \<^verbatim>\<open>send\<close> call, or the watchdog's interval. After the task the microtask
  queue is emptied. An uncaught exception ends the run.
\<close>

datatype event =
    User "call list"
  | Socket_connect nat
  | Socket_data nat string
  | Socket_error nat string
  | Socket_close nat
  | Send_timer nat
  | Watchdog_timer nat

fun handle :: "(string \<Rightarrow> json option) \<Rightarrow> event \<Rightarrow> client \<Rightarrow> uncaught + client" where
  "handle parse (User calls) st = Inr (fold perform calls st)"
| "handle parse (Socket_connect s) st = Inr (socket_connect s st)"
| "handle parse (Socket_data s chunk) st = socket_data parse s chunk st"
| "handle parse (Socket_error s err) st = Inr (socket_error s err st)"
| "handle parse (Socket_close s) st = socket_close s st"
| "handle parse (Send_timer p) st = Inr (send_timeout p st)"
| "handle parse (Watchdog_timer t) st = Inr (watchdog_timer t st)"

definition step :: "(string \<Rightarrow> json option) \<Rightarrow> event \<Rightarrow> client \<Rightarrow> uncaught + client" where
  "step parse ev st = (case handle parse ev st of Inl x \<Rightarrow> Inl x | Inr st' \<Rightarrow> Inr (drain st'))"

fun run :: "(string \<Rightarrow> json option) \<Rightarrow> event list \<Rightarrow> client \<Rightarrow> uncaught + client" where
  "run parse [] st = Inr st"
| "run parse (ev # evs) st =
     (case step parse ev st of Inl x \<Rightarrow> Inl x | Inr st' \<Rightarrow> run parse evs st')"

section \<open>A reader for a fragment of JSON\<close>

text \<open>
  \<^verbatim>\<open>JSON.parse\<close> is the runtime's, and the model takes it as the parameter \<open>parse\<close>.
  To run the model on a concrete byte stream, \<open>json_lite\<close> reads the fragment of JSON
  with objects, arrays, strings without escapes, integers and the three literals; on a
  document of the fragment it gives what \<^verbatim>\<open>JSON.parse\<close> gives.
\<close>

datatype token =
    T_lbrace | T_rbrace | T_lbracket | T_rbracket | T_colon | T_comma
  | T_string string | T_number int | T_literal json

datatype lexmode = Idle | In_string string | In_number bool nat | In_word string

definition is_space :: "char \<Rightarrow> bool" where
  "is_space c \<longleftrightarrow> c \<in> set [CHR '' '', CHR 0x09, CHR 0x0A, CHR 0x0D]"

definition is_digit :: "char \<Rightarrow> bool" where
  "is_digit c \<longleftrightarrow> 48 \<le> (of_char c :: nat) \<and> (of_char c :: nat) \<le> 57"

definition is_letter :: "char \<Rightarrow> bool" where
  "is_letter c \<longleftrightarrow> 97 \<le> (of_char c :: nat) \<and> (of_char c :: nat) \<le> 122"

definition punctuation :: "char \<Rightarrow> token option" where
  "punctuation c =
     (if c = CHR ''{'' then Some T_lbrace else if c = CHR ''}'' then Some T_rbrace
      else if c = CHR ''['' then Some T_lbracket else if c = CHR '']'' then Some T_rbracket
      else if c = CHR '':'' then Some T_colon else if c = CHR '','' then Some T_comma
      else None)"

definition word_token :: "string \<Rightarrow> token option" where
  "word_token w =
     (if w = ''true'' then Some (T_literal (JBool True))
      else if w = ''false'' then Some (T_literal (JBool False))
      else if w = ''null'' then Some (T_literal JNull)
      else None)"

definition number_token :: "bool \<Rightarrow> nat \<Rightarrow> token" where
  "number_token neg n = T_number (if neg then - int n else int n)"

function (sequential) lexer :: "lexmode \<Rightarrow> string \<Rightarrow> token list option" where
  "lexer Idle [] = Some []"
| "lexer (In_string acc) [] = None"
| "lexer (In_number neg n) [] = Some [number_token neg n]"
| "lexer (In_word w) [] = map_option (\<lambda>t. [t]) (word_token (rev w))"
| "lexer Idle (c # cs) =
     (if is_space c then lexer Idle cs
      else if c = CHR 0x22 then lexer (In_string []) cs
      else if is_digit c then lexer (In_number False (of_char c - 48)) cs
      else if is_letter c then lexer (In_word [c]) cs
      else (case punctuation c of
              Some t \<Rightarrow> map_option ((#) t) (lexer Idle cs)
            | None \<Rightarrow>
                (case cs of
                   d # ds \<Rightarrow>
                     if c = CHR ''-'' \<and> is_digit d then lexer (In_number True (of_char d - 48)) ds
                     else None
                 | [] \<Rightarrow> None)))"
| "lexer (In_string acc) (c # cs) =
     (if c = CHR 0x22 then map_option ((#) (T_string (rev acc))) (lexer Idle cs)
      else if c = CHR 0x5C \<or> (of_char c :: nat) < 32 then None
      else lexer (In_string (c # acc)) cs)"
| "lexer (In_number neg n) (c # cs) =
     (if is_digit c then (if n = 0 then None else lexer (In_number neg (10 * n + (of_char c - 48))) cs)
      else if c = CHR ''.'' \<or> c = CHR ''e'' \<or> c = CHR ''E'' then None
      else map_option ((#) (number_token neg n)) (lexer Idle (c # cs)))"
| "lexer (In_word w) (c # cs) =
     (if is_letter c then lexer (In_word (c # w)) cs
      else (case word_token (rev w) of
              None \<Rightarrow> None
            | Some t \<Rightarrow> map_option ((#) t) (lexer Idle (c # cs))))"
  by pat_completeness auto
termination
  by (relation "measures [\<lambda>(m, s). length s, \<lambda>(m, s). (if m = Idle then 0 else 1)]") auto

fun parse_value :: "nat \<Rightarrow> token list \<Rightarrow> (json \<times> token list) option"
  and parse_members :: "nat \<Rightarrow> (string \<times> json) list \<Rightarrow> token list \<Rightarrow> (json \<times> token list) option"
  and parse_elements :: "nat \<Rightarrow> json list \<Rightarrow> token list \<Rightarrow> (json \<times> token list) option"
where
  "parse_value 0 ts = None"
| "parse_value (Suc n) [] = None"
| "parse_value (Suc n) (T_string s # ts) = Some (JStr s, ts)"
| "parse_value (Suc n) (T_number i # ts) = Some (JNum i, ts)"
| "parse_value (Suc n) (T_literal v # ts) = Some (v, ts)"
| "parse_value (Suc n) (T_lbrace # T_rbrace # ts) = Some (JObj [], ts)"
| "parse_value (Suc n) (T_lbrace # ts) = parse_members n [] ts"
| "parse_value (Suc n) (T_lbracket # T_rbracket # ts) = Some (JArr [], ts)"
| "parse_value (Suc n) (T_lbracket # ts) = parse_elements n [] ts"
| "parse_value (Suc n) (_ # ts) = None"
| "parse_members 0 acc ts = None"
| "parse_members (Suc n) acc (T_string k # T_colon # ts) =
     (case parse_value n ts of
        None \<Rightarrow> None
      | Some (v, T_comma # ts') \<Rightarrow> parse_members n ((k, v) # acc) ts'
      | Some (v, T_rbrace # ts') \<Rightarrow> Some (JObj (rev ((k, v) # acc)), ts')
      | Some (v, _) \<Rightarrow> None)"
| "parse_members (Suc n) acc _ = None"
| "parse_elements 0 acc ts = None"
| "parse_elements (Suc n) acc ts =
     (case parse_value n ts of
        None \<Rightarrow> None
      | Some (v, T_comma # ts') \<Rightarrow> parse_elements n (v # acc) ts'
      | Some (v, T_rbracket # ts') \<Rightarrow> Some (JArr (rev (v # acc)), ts')
      | Some (v, _) \<Rightarrow> None)"

definition json_lite :: "string \<Rightarrow> json option" where
  "json_lite s =
     (case lexer Idle s of
        None \<Rightarrow> None
      | Some ts \<Rightarrow>
          (case parse_value (Suc (length ts)) ts of
             Some (v, []) \<Rightarrow> Some v
           | _ \<Rightarrow> None))"

section \<open>Sample traffic\<close>

text \<open>A device at work: the reply to the handshake, a reply to
  \<^verbatim>\<open>player/get_volume\<close>, and the first three tasks of every session (the call of
  \<^verbatim>\<open>connect\<close>, the socket's connect callback, the reply to the handshake). In such a
  session the connect promise and the socket are 0, the handshake is the send call 1,
  the watchdog's interval is 2.\<close>

definition register_reply :: string where
  \<open>register_reply =
     ''{"heos": {"command": "system/register_for_change_events", "result": "success", "message": "enable=on"}}''\<close>

definition volume_reply :: string where
  \<open>volume_reply =
     ''{"heos": {"command": "player/get_volume", "result": "success", "message": "pid=1&level=50"}}''\<close>

definition session_start :: "event list" where
  "session_start =
     [User [Call_connect], Socket_connect 0, Socket_data 0 (register_reply @ DELIMITER)]"

definition players_reply :: string where
  \<open>players_reply =
     ''{"heos": {"command": "player/get_players", "result": "success", "message": ""}, "payload": [{"name": "Kitchen", "pid": 1}]}''\<close>

definition volume_event :: string where
  \<open>volume_event =
     ''{"heos": {"command": "event/player_volume_changed", "message": "pid=1&level=55"}}''\<close>

text \<open>What a run leaves behind: the outcome of the promise \<open>p\<close>, what was emitted,
  the receive buffer, the data written, the running intervals, the sockets opened, the
  state.\<close>

definition outcome_after :: "uncaught + client \<Rightarrow> nat \<Rightarrow> result option" where
  "outcome_after r p = (case r of Inl _ \<Rightarrow> None | Inr st \<Rightarrow> outcome st p)"

definition emitted_after :: "uncaught + client \<Rightarrow> (string \<times> arg) list" where
  "emitted_after r = (case r of Inl _ \<Rightarrow> [] | Inr st \<Rightarrow> emitted st)"

definition rxBuffer_after :: "uncaught + client \<Rightarrow> string" where
  "rxBuffer_after r = (case r of Inl _ \<Rightarrow> [] | Inr st \<Rightarrow> rxBuffer st)"

definition written_after :: "uncaught + client \<Rightarrow> string list" where
  "written_after r = (case r of Inl _ \<Rightarrow> [] | Inr st \<Rightarrow> map snd (written st))"

definition intervals_after :: "uncaught + client \<Rightarrow> nat list" where
  "intervals_after r = (case r of Inl _ \<Rightarrow> [] | Inr st \<Rightarrow> intervals st)"


definition state_after :: "uncaught + client \<Rightarrow> conn_state option" where
  "state_after r = (case r of Inl _ \<Rightarrow> None | Inr st \<Rightarrow> Some (state st))"

section \<open>Properties of the wire format\<close>

lemma hexval_hexdigit: "n < 16 \<Longrightarrow> hexval (hexdigit n) = Some n"
  by (auto simp: hexval_def hexdigit_def Let_def)

lemma unescape_plain: "c \<noteq> CHR ''%'' \<Longrightarrow> unescape (c # t) = c # unescape t"
  by (cases t rule: unescape.cases) (auto)

lemma unreserved_not_percent: "unreserved c \<Longrightarrow> c \<noteq> CHR ''%''"
  by (auto simp: unreserved_def Let_def)

lemma of_char_div16: "(of_char c :: nat) div 16 < 16"
proof -
  have "(of_char c :: nat) < 256" by simp
  then show ?thesis by linarith
qed

lemma unescape_escape_char: "unescape (escape_char c @ t) = c # unescape t"
  by (simp add: escape_char_def unescape_plain unreserved_not_percent hexval_hexdigit of_char_div16)

lemma unescape_escape_append: "unescape (escape s @ t) = s @ unescape t"
  by (induction s) (simp_all add: escape_def unescape_escape_char)

text \<open>The parameters as they stand: \<^verbatim>\<open>key=value\<close> pairs joined by \<^verbatim>\<open>&\<close>, nothing encoded.\<close>

fun plain_fields :: "params \<Rightarrow> string" where
  "plain_fields [] = []"
| "plain_fields [kv] = fst kv @ ''='' @ snd kv"
| "plain_fields (kv # kv' # q) = fst kv @ ''='' @ snd kv @ ''&'' @ plain_fields (kv' # q)"

definition more_escaped :: "params \<Rightarrow> string" where
  "more_escaped q = concat (map (\<lambda>kv. ''&'' @ escape (fst kv) @ ''='' @ escape (snd kv)) q)"

definition more_plain :: "params \<Rightarrow> string" where
  "more_plain q = concat (map (\<lambda>kv. ''&'' @ fst kv @ ''='' @ snd kv) q)"

lemma foldl_stringify_field:
  "acc \<noteq> [] \<Longrightarrow> foldl stringify_field acc q = acc @ more_escaped q"
  by (induction q arbitrary: acc) (simp_all add: more_escaped_def stringify_field_def)

lemma stringify_Cons:
  "stringify (kv # q) = escape (fst kv) @ ''='' @ escape (snd kv) @ more_escaped q"
  by (simp add: stringify_def foldl_stringify_field stringify_field_def)

lemma unescape_more_escaped: "unescape (more_escaped q @ t) = more_plain q @ unescape t"
  by (induction q)
     (simp_all add: more_escaped_def more_plain_def unescape_plain unescape_escape_append)

lemma plain_fields_Cons: "plain_fields (kv # q) = fst kv @ ''='' @ snd kv @ more_plain q"
  by (induction q arbitrary: kv) (simp_all add: more_plain_def)

lemma unescape_stringify: "unescape (stringify q) = plain_fields q"
proof (cases q)
  case Nil
  then show ?thesis by (simp add: stringify_def)
next
  case (Cons kv q')
  have "unescape (stringify (kv # q')) = fst kv @ ''='' @ snd kv @ more_plain q'"
    using unescape_more_escaped [of q' "[]"]
    by (simp add: stringify_Cons unescape_escape_append unescape_plain)
  then show ?thesis by (simp add: Cons plain_fields_Cons)
qed

text \<open>
  Claim C8, as amended. \<^verbatim>\<open>_write\<close> throws \<^verbatim>\<open>not_connected\<close> without a socket; with
  a socket it writes exactly one piece of data: \<^verbatim>\<open>heos://\<close>, the command, \<^verbatim>\<open>?\<close>, the
  parameters as \<^verbatim>\<open>key=value\<close> pairs joined by \<^verbatim>\<open>&\<close> with keys and values as they
  stand (\<^verbatim>\<open>querystring.unescape\<close> undoes the percent-encoding of
  \<^verbatim>\<open>querystring.stringify\<close>), and CR-LF.
\<close>

theorem write_socket_verbatim:
  "write_socket item st =
     (case socket st of
        None \<Rightarrow> Inl Not_connected
      | Some s \<Rightarrow>
          Inr (st\<lparr> written := written st @
                 [(s, ''heos://'' @ command item @ ''?'' @ plain_fields (qs item) @ DELIMITER)] \<rparr>))"
  by (simp add: write_socket_def request_def unescape_stringify split: option.splits)

theorem write_socket_verbatim_witness:
  "write_socket \<lparr> ident = 0, command = ''system/sign_in'', qs = [(''un'', ''me@x.org''), (''pw'', ''a b'')] \<rparr>
     ((new_client ''h'')\<lparr> socket := Some 0 \<rparr>)
   = Inr ((new_client ''h'')\<lparr> socket := Some 0,
            written := [(0, ''heos://system/sign_in?un=me@x.org&pw=a b'' @ DELIMITER)] \<rparr>)"
  using write_socket_verbatim
    [of "\<lparr> ident = 0, command = ''system/sign_in'', qs = [(''un'', ''me@x.org''), (''pw'', ''a b'')] \<rparr>"
        "(new_client ''h'')\<lparr> socket := Some 0 \<rparr>"]
  by (simp add: new_client_def)

text \<open>
  Claim C8 as stated fails: for the password \<^verbatim>\<open>a b\<close> the url-encoded pair is
  \<^verbatim>\<open>pw=a%20b\<close>, and the request written holds \<^verbatim>\<open>pw=a b\<close>.
\<close>

theorem write_socket_urlencoded_counterexample:
  "write_socket \<lparr> ident = 0, command = ''system/sign_in'', qs = [(''pw'', ''a b'')] \<rparr>
     ((new_client ''h'')\<lparr> socket := Some 0 \<rparr>)
   = Inr ((new_client ''h'')\<lparr> socket := Some 0,
            written := [(0, ''heos://system/sign_in?pw=a b'' @ DELIMITER)] \<rparr>)
   \<and> stringify [(''pw'', ''a b'')] = ''pw=a%20b''
   \<and> ''heos://system/sign_in?pw=a b'' @ DELIMITER
       \<noteq> ''heos://system/sign_in?'' @ stringify [(''pw'', ''a b'')] @ DELIMITER"
  by code_simp

section \<open>Properties of the decoded message\<close>

















section \<open>Properties of the commands\<close>

text \<open>
  Claim C10. \<^verbatim>\<open>playerGetPlayers\<close> is one \<^verbatim>\<open>send\<close> of \<^verbatim>\<open>player/get_players\<close> with
  \<^verbatim>\<open>.then(result => result.payload)\<close> on its promise: the guard \<^verbatim>\<open>if (players)\<close>
  tests the promise, which is truthy, so the second \<^verbatim>\<open>send\<close> is never reached. In a
  session the call writes one request, and its promise (the promise 4) is fulfilled with
  the payload of the one reply.
\<close>

theorem playerGetPlayers_one_request:
  "playerGetPlayers st =
     (let (p, st1) = send ''player/get_players'' [] st in then_new p ThenPayload st1)
   \<and> written_after
        (run json_lite
           (session_start @ [User [Call_playerGetPlayers], Socket_data 0 (players_reply @ DELIMITER)])
           (new_client ''192.168.1.20''))
      = [''heos://system/register_for_change_events?enable=on'' @ DELIMITER,
         ''heos://player/get_players?'' @ DELIMITER]
   \<and> outcome_after
        (run json_lite
           (session_start @ [User [Call_playerGetPlayers], Socket_data 0 (players_reply @ DELIMITER)])
           (new_client ''192.168.1.20'')) 4
      = Some (Fulfilled (Document (JArr [JObj [(''name'', JStr ''Kitchen''), (''pid'', JNum 1)]])))"
proof (intro conjI)
  show "playerGetPlayers st =
     (let (p, st1) = send ''player/get_players'' [] st in then_new p ThenPayload st1)"
    by (simp add: playerGetPlayers_def Let_def split: prod.splits)
  show "written_after
        (run json_lite
           (session_start @ [User [Call_playerGetPlayers], Socket_data 0 (players_reply @ DELIMITER)])
           (new_client ''192.168.1.20''))
      = [''heos://system/register_for_change_events?enable=on'' @ DELIMITER,
         ''heos://player/get_players?'' @ DELIMITER]"
    by code_simp
  show "outcome_after
        (run json_lite
           (session_start @ [User [Call_playerGetPlayers], Socket_data 0 (players_reply @ DELIMITER)])
           (new_client ''192.168.1.20'')) 4
      = Some (Fulfilled (Document (JArr [JObj [(''name'', JStr ''Kitchen''), (''pid'', JNum 1)]])))"
    by code_simp
qed

section \<open>Properties of the receive buffer\<close>

text \<open>
  Claim C3, evaluated where it fails. A command is awaiting its reply, and the reply
  and an event arrive. As one chunk: the reply is routed, \<^verbatim>\<open>_parseRxBuffer\<close> returns
  from the branch of the current item without its recursive call, and the event stays
  in the buffer, not emitted. As two chunks: both units are decoded and the event is
  emitted.
\<close>

theorem parseRxBuffer_stops_after_reply:
  "rxBuffer_after
     (run json_lite
        (session_start @
         [User [Call_send ''player/get_volume'' [(''pid'', ''1'')]],
          Socket_data 0 (volume_reply @ DELIMITER @ volume_event @ DELIMITER)])
        (new_client ''192.168.1.20''))
   = volume_event @ DELIMITER
   \<and> filter (\<lambda>e. fst e = ''event'')
       (emitted_after
          (run json_lite
             (session_start @
              [User [Call_send ''player/get_volume'' [(''pid'', ''1'')]],
               Socket_data 0 (volume_reply @ DELIMITER @ volume_event @ DELIMITER)])
             (new_client ''192.168.1.20'')))
     = []
   \<and> rxBuffer_after
     (run json_lite
        (session_start @
         [User [Call_send ''player/get_volume'' [(''pid'', ''1'')]],
          Socket_data 0 (volume_reply @ DELIMITER), Socket_data 0 (volume_event @ DELIMITER)])
        (new_client ''192.168.1.20''))
   = []
   \<and> filter (\<lambda>e. fst e = ''event'')
       (emitted_after
          (run json_lite
             (session_start @
              [User [Call_send ''player/get_volume'' [(''pid'', ''1'')]],
               Socket_data 0 (volume_reply @ DELIMITER), Socket_data 0 (volume_event @ DELIMITER)])
             (new_client ''192.168.1.20'')))
     = [(''event'', Event_arg ''player_volume_changed'' [(''pid'', QStr ''1''), (''level'', QStr ''55'')])]"
  by code_simp








section \<open>Properties of the connection\<close>



text \<open>
  Claim C9, evaluated where it fails. The first successful connect of a session starts
  the watchdog's interval (the interval 2). After \<^verbatim>\<open>disconnect()\<close>, the close of the
  socket, a second \<^verbatim>\<open>connect()\<close> and its handshake, the client is connected, the
  promise of the second connect (the promise 4) is fulfilled, and no interval is
  running: \<^verbatim>\<open>clearInterval\<close> stopped the interval, \<^verbatim>\<open>this._watchdog\<close> still holds
  its handle, and the guard \<^verbatim>\<open>if (!this._watchdog)\<close> keeps \<^verbatim>\<open>_connect\<close> from
  starting another.
\<close>

theorem watchdog_not_rearmed:
  "intervals_after (run json_lite session_start (new_client ''192.168.1.20'')) = [2]
   \<and> state_after
       (run json_lite
          (session_start @
           [User [Call_disconnect], Socket_close 0,
            User [Call_connect], Socket_connect 4, Socket_data 4 (register_reply @ DELIMITER)])
          (new_client ''192.168.1.20''))
     = Some Connected
   \<and> outcome_after
       (run json_lite
          (session_start @
           [User [Call_disconnect], Socket_close 0,
            User [Call_connect], Socket_connect 4, Socket_data 4 (register_reply @ DELIMITER)])
          (new_client ''192.168.1.20'')) 4
     = Some (Fulfilled Undefined)
   \<and> intervals_after
       (run json_lite
          (session_start @
           [User [Call_disconnect], Socket_close 0,
            User [Call_connect], Socket_connect 4, Socket_data 4 (register_reply @ DELIMITER)])
          (new_client ''192.168.1.20''))
     = []"
  by code_simp

section \<open>Properties of the dispatch queue\<close>

lemma jobs_drain [simp]: "jobs (drain st) = []"
proof (induction st rule: drain.induct)
  case (1 st)
  then show ?case by (subst drain.simps) (simp split: list.splits)
qed

fun is_React :: "job \<Rightarrow> bool" where
  "is_React (React _ _) = True"
| "is_React (Send_settled _ _) = False"

text \<open>What a reaction leaves alone: the send queue, the current item and the data
  written; and a promise that is settled keeps its outcome.\<close>

definition untouched :: "client \<Rightarrow> client \<Rightarrow> bool" where
  "untouched st st' \<longleftrightarrow>
     sendQueue st' = sendQueue st \<and> currentSendQueueItem st' = currentSendQueueItem st
     \<and> written st' = written st
     \<and> (\<forall>p r. outcome st p = Some r \<longrightarrow> outcome st' p = Some r)"

definition calm :: "client \<Rightarrow> client \<Rightarrow> bool" where
  "calm st st' \<longleftrightarrow>
     untouched st st' \<and> (list_all is_React (jobs st) \<longrightarrow> list_all is_React (jobs st'))"

lemma calm_refl [simp]: "calm st st"
  by (simp add: calm_def untouched_def)

lemma calm_trans: "calm a b \<Longrightarrow> calm b c \<Longrightarrow> calm a c"
  by (simp add: calm_def untouched_def)

lemma calm_fields:
  assumes "sendQueue st' = sendQueue st" "currentSendQueueItem st' = currentSendQueueItem st"
    "written st' = written st" "settled st' = settled st" "jobs st' = jobs st"
  shows "calm st st'"
  using assms by (simp add: calm_def untouched_def outcome_def)

lemma calm_emit [simp]: "calm st (emit ch a st)"
  by (rule calm_fields) (simp_all add: emit_def)

lemma calm_setState [simp]: "calm st (setState s st)"
  by (rule calm_fields) (simp_all add: setState_def emit_def)

lemma calm_release [simp]: "calm st (release p res st)"
  by (auto simp: calm_def untouched_def release_def outcome_def list_all_iff)

lemma calm_settle [simp]: "calm st (settle p res st)"
proof (cases "outcome st p")
  case None
  have "calm st (st\<lparr> settled := settled st @ [(p, res)] \<rparr>)"
    by (auto simp: calm_def untouched_def outcome_def)
  from calm_trans [OF this calm_release] show ?thesis using None by (simp add: settle_def)
next
  case (Some r)
  then show ?thesis by (simp add: settle_def)
qed

lemma calm_await [simp]: "calm st (await p k st)"
  by (auto simp: calm_def untouched_def await_def outcome_def split: option.splits)

lemma calm_then_ret [simp]: "calm st (then_ret r k st)"
proof (cases r)
  case Now
  then show ?thesis by (simp add: then_ret_def calm_def untouched_def outcome_def)
next
  case (Promise p)
  then show ?thesis by (simp add: then_ret_def)
qed

lemma calm_connect_open [simp]: "calm st (connect_open q st)"
  by (rule calm_fields) (simp_all add: connect_open_def Let_def setState_def emit_def)

lemma calm_disconnect_close [simp]: "calm st (disconnect_close d st)"
proof -
  let ?st1 = "setState Disconnecting st"
  have a: "calm st ?st1" by simp
  show ?thesis
  proof (cases "socket ?st1")
    case None
    have "calm ?st1 (?st1\<lparr> disconnectPromise := Some d \<rparr>)"
      by (rule calm_fields) simp_all
    from calm_trans [OF a calm_trans [OF this calm_settle]] None show ?thesis
      by (simp add: disconnect_close_def Let_def)
  next
    case (Some s)
    have "calm ?st1 (?st1\<lparr> closeOnce := closeOnce ?st1 @ [(s, d)], ended := ended ?st1 @ [s],
                disconnectPromise := Some d \<rparr>)"
      by (rule calm_fields) simp_all
    from calm_trans [OF a this] Some show ?thesis
      by (simp add: disconnect_close_def Let_def)
  qed
qed

lemma calm_fresh [simp]: "calm st (st\<lparr> fresh := n \<rparr>)"
  by (rule calm_fields) simp_all

lemma calm_priv_connect [simp]: "calm st (snd (priv_connect st))"
proof -
  have "calm st (then_ret r k (st\<lparr> fresh := n \<rparr>))" for r k n
    using calm_fresh calm_then_ret calm_trans by blast
  moreover have "calm st (connect_open q (st\<lparr> fresh := n \<rparr>))" for q n
    using calm_fresh calm_connect_open calm_trans by blast
  ultimately show ?thesis by (simp add: priv_connect_def Let_def)
qed

lemma calm_priv_disconnect [simp]: "calm st (snd (priv_disconnect st))"
proof -
  have "calm st (then_ret r k (st\<lparr> fresh := n \<rparr>))" for r k n
    using calm_fresh calm_then_ret calm_trans by blast
  moreover have "calm st (disconnect_close q (st\<lparr> fresh := n \<rparr>))" for q n
    using calm_fresh calm_disconnect_close calm_trans by blast
  ultimately show ?thesis by (simp add: priv_disconnect_def Let_def)
qed

lemma calm_reconnect [simp]: "calm st (snd (reconnect st))"
  by (auto simp: reconnect_def Let_def calm_def untouched_def outcome_def split: option.splits)

lemma calm_react: "calm st (react k res st)"
proof (cases k)
  case (Handshake q)
  show ?thesis
  proof (cases res)
    case (Fulfilled v)
    let ?st1 = "setState Connected (st\<lparr> connectPromise := None \<rparr>)"
    let ?st2 = "case watchdog ?st1 of
                  None \<Rightarrow> (let t = fresh ?st1
                           in ?st1\<lparr> fresh := Suc t, watchdog := Some t,
                                   intervals := intervals ?st1 @ [t] \<rparr>)
                | Some _ \<Rightarrow> ?st1"
    have "calm st (st\<lparr> connectPromise := None \<rparr>)" by (rule calm_fields) simp_all
    then have "calm st ?st1" using calm_setState calm_trans by blast
    moreover have "calm ?st1 ?st2"
      by (rule calm_fields) (simp_all add: Let_def split: option.splits)
    ultimately have "calm st ?st2" using calm_trans by blast
    then have "calm st (settle q (Fulfilled Undefined) ?st2)"
      using calm_settle calm_trans by blast
    with Handshake Fulfilled show ?thesis by (simp add: Let_def)
  next
    case (Rejected e)
    have "calm st (st\<lparr> connectPromise := None \<rparr>)" by (rule calm_fields) simp_all
    then have "calm st (snd (priv_disconnect (st\<lparr> connectPromise := None \<rparr>)))"
      using calm_priv_disconnect calm_trans by blast
    with Handshake Rejected show ?thesis by simp
  qed
next
  case (ReconnectStart r)
  have "calm st (snd (priv_disconnect (emit ''reconnecting'' No_arg st)))"
    using calm_emit calm_priv_disconnect calm_trans by blast
  then have "calm st (then_ret d (ReconnectConnect r) (snd (priv_disconnect (emit ''reconnecting'' No_arg st))))" for d
    using calm_then_ret calm_trans by blast
  with ReconnectStart show ?thesis by (simp add: Let_def case_prod_beta)
next
  case (ReconnectConnect r)
  have "calm st (then_ret c (ReconnectDone r) (snd (priv_connect st)))" for c
    using calm_priv_connect calm_then_ret calm_trans by blast
  with ReconnectConnect show ?thesis by (simp add: Let_def case_prod_beta)
next
  case (ReconnectDone r)
  have "calm st ((emit ch a st)\<lparr> reconnectPromise := None \<rparr>)" for ch a
    by (rule calm_fields) (simp_all add: emit_def)
  then have "calm st (settle r x ((emit ch a st)\<lparr> reconnectPromise := None \<rparr>))" for ch a x
    using calm_settle calm_trans by blast
  with ReconnectDone show ?thesis by (cases res) simp_all
next
  case Probe
  show ?thesis
  proof (cases res)
    case (Fulfilled v)
    have "calm st (st\<lparr> watchdogPromise := False \<rparr>)" by (rule calm_fields) simp_all
    with Probe Fulfilled show ?thesis by simp
  next
    case (Rejected e)
    have "calm st (snd (reconnect (emit ''watchdog_error'' No_arg st)))"
      using calm_emit calm_reconnect calm_trans by blast
    then have "calm st (then_ret r WatchdogReset (snd (reconnect (emit ''watchdog_error'' No_arg st))))" for r
      using calm_then_ret calm_trans by blast
    with Probe Rejected show ?thesis by (simp add: Let_def case_prod_beta)
  qed
next
  case WatchdogReset
  have "calm st (st\<lparr> watchdogPromise := False \<rparr>)" by (rule calm_fields) simp_all
  with WatchdogReset show ?thesis by simp
qed simp_all

lemma untouched_drain:
  "list_all is_React (jobs st) \<Longrightarrow> untouched st (drain st)"
proof (induction st rule: drain.induct)
  case (1 st)
  show ?case
  proof (cases "jobs st")
    case Nil
    then show ?thesis by (subst drain.simps) (simp add: untouched_def)
  next
    case (Cons j js)
    with 1(2) obtain k res where j: "j = React k res" and js: "list_all is_React js"
      by (cases j) auto
    let ?st1 = "st\<lparr> jobs := js \<rparr>"
    let ?st2 = "react k res ?st1"
    have c: "calm ?st1 ?st2" by (rule calm_react)
    with js have r2: "list_all is_React (jobs ?st2)" by (simp add: calm_def)
    have u1: "untouched st ?st1" by (simp add: untouched_def outcome_def)
    from c have u2: "untouched ?st1 ?st2" by (simp add: calm_def)
    have "untouched ?st2 (drain ?st2)"
      using 1(1) [OF Cons] r2 j by simp
    with u1 u2 have "untouched st (drain ?st2)" by (simp add: untouched_def)
    then show ?thesis using Cons j by (subst drain.simps) simp
  qed
qed


lemma list_all_is_React_release:
  "list_all is_React (jobs st) \<Longrightarrow> list_all is_React (jobs (release p res st))"
  by (auto simp: release_def list_all_iff)

lemma nextSendQueueItem_idle:
  assumes "currentSendQueueItem st = None" and "socket st = Some s"
  shows "nextSendQueueItem st =
           (case sendQueue st of
              [] \<Rightarrow> st
            | item # rest \<Rightarrow>
                st\<lparr> currentSendQueueItem := Some item, sendQueue := rest,
                    written := written st @ [(s, request (command item) (qs item))] \<rparr>)"
  using assms
  by (subst nextSendQueueItem.simps) (simp add: write_socket_def Let_def split: list.splits)

text \<open>
  Claim C2, as amended. Between two tasks (the microtask queue is empty), let the timer
  of the send call \<open>p\<close> fire while \<open>p\<close> is still pending: no reply was routed to it and
  no write failed for it. Then the task does not throw, and after it \<open>p\<close> is rejected
  with \<^verbatim>\<open>Send Timeout\<close> and the queue has advanced: with a socket, the head of the
  send queue is the new current item and its request has been written; with an empty
  queue there is no current item, and the next command submitted is written at once.
\<close>

theorem send_timeout_advances:
  assumes "jobs st = []" and "p \<in> set (timers st)" and "outcome st p = None"
    and "socket st = Some s"
  shows "case step parse (Send_timer p) st of
           Inl _ \<Rightarrow> False
         | Inr st' \<Rightarrow>
             jobs st' = [] \<and> outcome st' p = Some (Rejected Send_Timeout)
             \<and> (case sendQueue st of
                   [] \<Rightarrow>
                     currentSendQueueItem st' = None \<and> sendQueue st' = []
                     \<and> written st' = written st
                     \<and> (socket st' = Some s \<longrightarrow>
                          written (snd (send cmd q st')) = written st' @ [(s, request cmd q)])
                 | item # rest \<Rightarrow>
                     currentSendQueueItem st' = Some item \<and> sendQueue st' = rest
                     \<and> written st' = written st @ [(s, request (command item) (qs item))])"
proof -
  let ?t = "Rejected Send_Timeout"
  let ?st1 = "st\<lparr> timers := removeAll p (timers st), settled := settled st @ [(p, ?t)],
                  jobs := [], currentSendQueueItem := None \<rparr>"
  let ?st2 = "nextSendQueueItem ?st1"
  let ?st3 = "release p ?t ?st2"
  have s1: "send_timeout p st = st\<lparr> timers := removeAll p (timers st),
              settled := settled st @ [(p, ?t)], jobs := [Send_settled p ?t] \<rparr>"
    using assms by (simp add: send_timeout_def settle_send_def outcome_def)
  have d: "drain (send_timeout p st) = drain ?st3"
    unfolding s1 by (subst drain.simps) simp
  have n: "?st2 = (case sendQueue st of
                     [] \<Rightarrow> ?st1
                   | item # rest \<Rightarrow>
                       ?st1\<lparr> currentSendQueueItem := Some item, sendQueue := rest,
                            written := written st @ [(s, request (command item) (qs item))] \<rparr>)"
    using assms(4) by (subst nextSendQueueItem_idle [where s = s]) (simp_all split: list.splits)
  have j2: "jobs ?st2 = []" unfolding n by (simp split: list.splits)
  have o2: "outcome ?st2 p = Some ?t"
    unfolding n using assms(3) by (simp add: outcome_def map_add_def split: list.splits)
  have r3: "list_all is_React (jobs ?st3)"
    by (rule list_all_is_React_release) (simp add: j2)
  have u: "untouched ?st3 (drain ?st3)" using r3 by (rule untouched_drain)
  have o3: "outcome ?st3 p = Some ?t" using o2 by (simp add: release_def outcome_def)
  have f3: "sendQueue ?st3 = sendQueue ?st2" "currentSendQueueItem ?st3 = currentSendQueueItem ?st2"
    "written ?st3 = written ?st2"
    by (simp_all add: release_def)
  let ?st' = "drain ?st3"
  have e: "step parse (Send_timer p) st = Inr ?st'"
    by (simp add: step_def d)
  have a: "outcome ?st' p = Some ?t" using u o3 by (simp add: untouched_def)
  have q: "sendQueue ?st' = sendQueue ?st2" "currentSendQueueItem ?st' = currentSendQueueItem ?st2"
    "written ?st' = written ?st2"
    using u f3 by (simp_all add: untouched_def)
  show ?thesis
  proof (cases "sendQueue st")
    case Nil
    with n have "sendQueue ?st2 = []" "currentSendQueueItem ?st2 = None" "written ?st2 = written st"
      by simp_all
    with q have z: "sendQueue ?st' = []" "currentSendQueueItem ?st' = None" "written ?st' = written st"
      by simp_all
    have "written (snd (send cmd q ?st')) = written ?st' @ [(s, request cmd q)]"
      if "socket ?st' = Some s"
      using that z(1,2)
      by (simp add: send_def Let_def nextSendQueueItem_idle [where s = s])
    with Nil e a z show ?thesis by simp
  next
    case (Cons item rest)
    with n have "sendQueue ?st2 = rest" "currentSendQueueItem ?st2 = Some item"
      "written ?st2 = written st @ [(s, request (command item) (qs item))]"
      by simp_all
    with q Cons e a show ?thesis by simp
  qed
qed

text \<open>A connected client waiting for the reply to \<^verbatim>\<open>player/get_volume\<close> (the send call
  3), with \<^verbatim>\<open>player/get_mute\<close> (the send call 4) queued behind it.\<close>

definition busy_client :: client where
  "busy_client =
     (new_client ''192.168.1.20'')
       \<lparr> state := Connected, socket := Some 0, opened := [0], listening := [0], fresh := 5,
         currentSendQueueItem :=
           Some \<lparr> ident = 3, command = ''player/get_volume'', qs = [(''pid'', ''1'')] \<rparr>,
         sendQueue := [\<lparr> ident = 4, command = ''player/get_mute'', qs = [(''pid'', ''1'')] \<rparr>],
         written := [(0, ''heos://player/get_volume?pid=1'' @ DELIMITER)],
         timers := [3, 4] \<rparr>"

theorem send_timeout_advances_witness:
  "jobs busy_client = [] \<and> 3 \<in> set (timers busy_client) \<and> outcome busy_client 3 = None
   \<and> socket busy_client = Some 0
   \<and> (case step json_lite (Send_timer 3) busy_client of
         Inl _ \<Rightarrow> False
       | Inr st' \<Rightarrow>
           jobs st' = [] \<and> outcome st' 3 = Some (Rejected Send_Timeout)
           \<and> currentSendQueueItem st'
               = Some \<lparr> ident = 4, command = ''player/get_mute'', qs = [(''pid'', ''1'')] \<rparr>
           \<and> sendQueue st' = []
           \<and> written st' = [(0, ''heos://player/get_volume?pid=1'' @ DELIMITER),
                              (0, request ''player/get_mute'' [(''pid'', ''1'')])])"
proof -
  have h: "jobs busy_client = []" "3 \<in> set (timers busy_client)" "outcome busy_client 3 = None"
    "socket busy_client = Some 0"
    by (simp_all add: busy_client_def new_client_def outcome_def)
  have q: "sendQueue busy_client
             = [\<lparr> ident = 4, command = ''player/get_mute'', qs = [(''pid'', ''1'')] \<rparr>]"
    "written busy_client = [(0, ''heos://player/get_volume?pid=1'' @ DELIMITER)]"
    by (simp_all add: busy_client_def new_client_def)
  from send_timeout_advances
    [OF h, where parse = json_lite and cmd = "''player/get_mute''" and q = "[]"]
  show ?thesis
    by (auto simp: h q split: sum.splits)
qed

text \<open>
  Claim C2 as stated fails for a command submitted without a socket: it gets no reply,
  and its promise (the promise 0) is rejected with \<^verbatim>\<open>not_connected\<close> by the failed
  write, at once; the timer that fires later changes nothing.
\<close>

theorem send_not_connected_counterexample:
  "outcome_after
     (run json_lite [User [Call_send ''player/get_volume'' [(''pid'', ''1'')]]]
        (new_client ''192.168.1.20'')) 0
   = Some (Rejected Not_connected)
   \<and> outcome_after
       (run json_lite [User [Call_send ''player/get_volume'' [(''pid'', ''1'')]], Send_timer 0]
          (new_client ''192.168.1.20'')) 0
     = Some (Rejected Not_connected)
   \<and> written_after
       (run json_lite [User [Call_send ''player/get_volume'' [(''pid'', ''1'')]], Send_timer 0]
          (new_client ''192.168.1.20''))
     = []"
  by code_simp

text \<open>Traffic on an idle connection: user code submits commands, the device answers.\<close>

datatype traffic = Submit "(string \<times> params) list" | Answer string

fun event_of :: "nat \<Rightarrow> traffic \<Rightarrow> event" where
  "event_of s (Submit cs) = User (map (\<lambda>cq. Call_send (fst cq) (snd cq)) cs)"
| "event_of s (Answer u) = Socket_data s (u @ DELIMITER)"

fun submissions :: "traffic list \<Rightarrow> (string \<times> params) list" where
  "submissions [] = []"
| "submissions (Submit cs # t) = cs @ submissions t"
| "submissions (Answer u # t) = submissions t"

fun answers :: "traffic list \<Rightarrow> string list" where
  "answers [] = []"
| "answers (Submit cs # t) = answers t"
| "answers (Answer u # t) = u # answers t"

text \<open>What the unit \<open>u\<close> settles the current item with, when it is a reply.\<close>

definition reply_result :: "(string \<Rightarrow> json option) \<Rightarrow> string \<Rightarrow> result option" where
  "reply_result parse u =
     (case parse u of
        None \<Rightarrow> None
      | Some doc \<Rightarrow>
          (case responseParser doc of
             Inl _ \<Rightarrow> None
           | Inr (Error_object e) \<Rightarrow> Some (Rejected e)
           | Inr (Reply r) \<Rightarrow>
               (case command_is_event (rsp_command r) of
                  Inr False \<Rightarrow> Some (Fulfilled (Response r))
                | _ \<Rightarrow> None)))"

text \<open>The device answers only a command it has been sent and not yet answered (\<open>n\<close>
  counts them), one reply in a chunk.\<close>

fun orderly :: "(string \<Rightarrow> json option) \<Rightarrow> nat \<Rightarrow> traffic list \<Rightarrow> bool" where
  "orderly parse n [] = True"
| "orderly parse n (Submit cs # t) = orderly parse (n + length cs) t"
| "orderly parse n (Answer u # t) =
     (0 < n \<and> split_DELIMITER u = [u] \<and> reply_result parse u \<noteq> None \<and> orderly parse (n - 1) t)"

text \<open>An idle connection: a socket with its listeners, nothing buffered, queued,
  awaited or waiting, and every promise settled so far older than the next one.\<close>

definition idle :: "nat \<Rightarrow> client \<Rightarrow> bool" where
  "idle s st \<longleftrightarrow>
     socket st = Some s \<and> s \<in> set (listening st) \<and> rxBuffer st = [] \<and> jobs st = []
     \<and> waiters st = [] \<and> currentSendQueueItem st = None \<and> sendQueue st = []
     \<and> list_all (\<lambda>pr. fst pr < fresh st) (settled st)"

text \<open>The queue item of the \<open>i\<close>-th command submitted, when the first one gets the
  promise \<open>f\<close>; and the state of the client after the commands \<open>subs\<close> were submitted and
  the replies \<open>rs\<close> were routed.\<close>

definition item_at :: "nat \<Rightarrow> nat \<Rightarrow> string \<times> params \<Rightarrow> sendQueueItem" where
  "item_at f i cq = \<lparr> ident = f + i, command = fst cq, qs = snd cq \<rparr>"

definition items_of :: "nat \<Rightarrow> (string \<times> params) list \<Rightarrow> sendQueueItem list" where
  "items_of f subs = map (\<lambda>i. item_at f i (subs ! i)) [0 ..< length subs]"

definition serving ::
  "client \<Rightarrow> nat \<Rightarrow> (string \<times> params) list \<Rightarrow> result list \<Rightarrow> client \<Rightarrow> bool" where
  "serving st0 s subs rs st \<longleftrightarrow>
     length rs \<le> length subs
     \<and> socket st = Some s \<and> s \<in> set (listening st) \<and> rxBuffer st = [] \<and> jobs st = []
     \<and> waiters st = []
     \<and> fresh st = fresh st0 + length subs
     \<and> currentSendQueueItem st =
         (if length rs < length subs then Some (items_of (fresh st0) subs ! length rs) else None)
     \<and> sendQueue st = drop (Suc (length rs)) (items_of (fresh st0) subs)
     \<and> written st = written st0 @
         map (\<lambda>i. (s, request (command i) (qs i))) (take (Suc (length rs)) (items_of (fresh st0) subs))
     \<and> settled st = settled st0 @ zip [fresh st0 ..< fresh st0 + length rs] rs
     \<and> (\<forall>p. fresh st0 \<le> p \<longrightarrow> outcome st0 p = None)"

lemma items_of_snoc:
  "items_of f (subs @ [cq]) = items_of f subs @ [item_at f (length subs) cq]"
  by (simp add: items_of_def nth_append)

lemma length_items_of [simp]: "length (items_of f subs) = length subs"
  by (simp add: items_of_def)

lemma outcome_fresh:
  "list_all (\<lambda>pr. fst pr < (f :: nat)) xs \<Longrightarrow> f \<le> p \<Longrightarrow> map_of xs p = None"
  by (induction xs) auto

lemma serving_idle: "idle s st \<Longrightarrow> serving st s [] [] st"
  using outcome_fresh [of "fresh st" "settled st"]
  by (auto simp: idle_def serving_def items_of_def outcome_def)

lemma nextSendQueueItem_busy:
  "currentSendQueueItem st \<noteq> None \<Longrightarrow> nextSendQueueItem st = st"
  by (subst nextSendQueueItem.simps) simp

lemma serving_send:
  assumes "serving st0 s subs rs st"
  shows "serving st0 s (subs @ [(c, q)]) rs (snd (send c q st))"
proof (cases "length rs < length subs")
  case True
  with assms have cur: "currentSendQueueItem st \<noteq> None" by (simp add: serving_def)
  have "snd (send c q st) = st\<lparr> fresh := Suc (fresh st),
          sendQueue := sendQueue st @ [\<lparr> ident = fresh st, command = c, qs = q \<rparr>],
          timers := timers st @ [fresh st] \<rparr>"
    using cur by (simp add: send_def Let_def nextSendQueueItem_busy)
  with assms True show ?thesis
    by (simp add: serving_def items_of_snoc nth_append item_at_def)
next
  case False
  with assms have m: "length rs = length subs" and cur: "currentSendQueueItem st = None"
    and sq: "sendQueue st = []" and so: "socket st = Some s"
    by (simp_all add: serving_def)
  have "snd (send c q st) = st\<lparr> fresh := Suc (fresh st),
          currentSendQueueItem := Some \<lparr> ident = fresh st, command = c, qs = q \<rparr>,
          sendQueue := [],
          written := written st @ [(s, request c q)],
          timers := timers st @ [fresh st] \<rparr>"
    using cur sq so by (simp add: send_def Let_def nextSendQueueItem_idle [where s = s])
  with assms m show ?thesis
    by (simp add: serving_def items_of_snoc nth_append item_at_def)
qed

lemma serving_sends:
  assumes "serving st0 s subs rs st"
  shows "serving st0 s (subs @ cs) rs
           (fold perform (map (\<lambda>cq. Call_send (fst cq) (snd cq)) cs) st)"
  using assms
proof (induction cs arbitrary: subs st)
  case Nil
  then show ?case by simp
next
  case (Cons cq cs)
  from serving_send [OF Cons.prems, of "fst cq" "snd cq"]
  have "serving st0 s (subs @ [cq]) rs (snd (send (fst cq) (snd cq) st))" by simp
  from Cons.IH [OF this] show ?case by simp
qed


lemma split_DELIMITER_unit:
  "split_DELIMITER u = [u] \<Longrightarrow> split_DELIMITER (u @ DELIMITER) = [u, []]"
proof (induction u rule: split_DELIMITER.induct)
  case (1 c d cs)
  show ?case
  proof (cases "c = CHR 0x0D \<and> d = CHR 0x0A")
    case True
    with 1(3) show ?thesis by simp
  next
    case False
    obtain v vs where v: "split_DELIMITER (d # cs) = v # vs"
      by (cases "split_DELIMITER (d # cs)") auto
    with False 1(3) have "v = d # cs" "vs = []" by auto
    with v 1(2) False have "split_DELIMITER ((d # cs) @ DELIMITER) = [d # cs, []]" by simp
    with False show ?thesis by simp
  qed
qed (simp_all add: DELIMITER_def)

lemma route_reply_result:
  assumes "reply_result parse u = Some res" and "parse u = Some doc"
    and "responseParser doc = Inr response" and "currentSendQueueItem st = Some item"
  shows "route response st = Inr (False, settle_send (ident item) res st)"
  using assms
  by (auto simp: reply_result_def route_def split: parsed.splits sum.splits bool.splits)

lemma parseRxBuffer_unit:
  assumes "rxBuffer st = u @ DELIMITER" and "split_DELIMITER u = [u]"
    and "reply_result parse u = Some res" and "currentSendQueueItem st = Some item"
  shows "parseRxBuffer parse st = Inr (settle_send (ident item) res (st\<lparr> rxBuffer := [] \<rparr>))"
proof -
  from assms(3) obtain doc where doc: "parse u = Some doc"
    by (auto simp: reply_result_def split: option.splits)
  with assms(3) obtain response where rsp: "responseParser doc = Inr response"
    by (auto simp: reply_result_def split: sum.splits)
  have sp: "split_DELIMITER (rxBuffer st) = [u, []]"
    using assms(1,2) by (simp add: split_DELIMITER_unit)
  have "route response (st\<lparr> rxBuffer := [] \<rparr>)
          = Inr (False, settle_send (ident item) res (st\<lparr> rxBuffer := [] \<rparr>))"
    using route_reply_result [OF assms(3) doc rsp, of "st\<lparr> rxBuffer := [] \<rparr>" item] assms(4)
    by simp
  then show ?thesis
    by (subst parseRxBuffer.simps) (simp add: sp doc rsp Let_def)
qed

lemma drain_empty: "jobs st = [] \<Longrightarrow> drain st = st"
  by (subst drain.simps) simp

lemma map_of_zip_upt_None:
  "length rs = m \<Longrightarrow> f + m \<le> p \<Longrightarrow> map_of (zip [f ..< f + m] rs) p = None"
  by (auto simp: map_of_eq_None_iff dest: set_zip_leftD)

lemma serving_answer:
  assumes sv: "serving st0 s subs rs st" and lt: "length rs < length subs"
    and unit: "split_DELIMITER u = [u]" and rr: "reply_result parse u = Some res"
  shows "\<exists>st'. step parse (Socket_data s (u @ DELIMITER)) st = Inr st'
               \<and> serving st0 s subs (rs @ [res]) st'"
proof -
  let ?f = "fresh st0"
  let ?m = "length rs"
  let ?items = "items_of ?f subs"
  let ?item = "?items ! ?m"
  let ?p = "?f + ?m"
  from sv lt have so: "socket st = Some s" and li: "s \<in> set (listening st)"
    and rx: "rxBuffer st = []" and jo: "jobs st = []" and wa: "waiters st = []"
    and cur: "currentSendQueueItem st = Some ?item"
    and sq: "sendQueue st = drop (Suc ?m) ?items"
    and wr: "written st = written st0 @
         map (\<lambda>i. (s, request (command i) (qs i))) (take (Suc ?m) ?items)"
    and se: "settled st = settled st0 @ zip [?f ..< ?f + ?m] rs"
    and fr: "\<forall>p. ?f \<le> p \<longrightarrow> outcome st0 p = None"
    and fs: "fresh st = ?f + length subs"
    by (simp_all add: serving_def)
  have id: "ident ?item = ?p" using lt by (simp add: items_of_def item_at_def)
  let ?st1 = "st\<lparr> rxBuffer := rxBuffer st @ u @ DELIMITER \<rparr>"
  have p1: "parseRxBuffer parse ?st1
              = Inr (settle_send (ident ?item) res (?st1\<lparr> rxBuffer := [] \<rparr>))"
    by (rule parseRxBuffer_unit [where u = u]) (simp_all add: rx unit rr cur)
  have un: "outcome st ?p = None"
    using fr by (simp add: outcome_def se map_add_def map_of_zip_upt_None split: option.splits)
  let ?st2 = "st\<lparr> settled := settled st @ [(?p, res)], jobs := [Send_settled ?p res] \<rparr>"
  have s2: "settle_send (ident ?item) res (?st1\<lparr> rxBuffer := [] \<rparr>) = ?st2"
    using un by (simp add: settle_send_def id outcome_def rx jo)
  have h: "socket_data parse s (u @ DELIMITER) st = Inr ?st2"
    using li p1 s2 by (simp add: socket_data_def)
  let ?st3 = "st\<lparr> settled := settled st @ [(?p, res)], jobs := [], currentSendQueueItem := None \<rparr>"
  let ?st4 = "nextSendQueueItem ?st3"
  have n4: "?st4 = (case sendQueue st of
                      [] \<Rightarrow> ?st3
                    | item # rest \<Rightarrow>
                        ?st3\<lparr> currentSendQueueItem := Some item, sendQueue := rest,
                             written := written st @ [(s, request (command item) (qs item))] \<rparr>)"
    using so by (subst nextSendQueueItem_idle [where s = s]) (simp_all split: list.splits)
  have j4: "jobs ?st4 = []" and w4: "waiters ?st4 = []"
    unfolding n4 by (simp_all add: wa split: list.splits)
  have r4: "release ?p res ?st4 = ?st4"
    using j4 w4 by (simp add: release_def)
  have d: "drain ?st2 = ?st4"
    by (subst drain.simps) (simp add: r4 drain_empty j4)
  have e: "step parse (Socket_data s (u @ DELIMITER)) st = Inr ?st4"
    by (simp add: step_def h d)
  have z: "zip [?f ..< Suc (?f + ?m)] (rs @ [res]) = zip [?f ..< ?f + ?m] rs @ [(?p, res)]"
    by simp
  have "serving st0 s subs (rs @ [res]) ?st4"
  proof (cases "Suc ?m < length subs")
    case True
    then have dr: "drop (Suc ?m) ?items = ?items ! Suc ?m # drop (Suc (Suc ?m)) ?items"
      by (simp add: Cons_nth_drop_Suc)
    have tk: "take (Suc (Suc ?m)) ?items = take (Suc ?m) ?items @ [?items ! Suc ?m]"
      using True by (simp add: take_Suc_conv_app_nth)
    show ?thesis
      unfolding n4 using True lt
      by (simp add: serving_def sq dr tk so li rx wa fs wr se fr z del: upt_Suc)
  next
    case False
    then have dr: "drop (Suc ?m) ?items = []" by simp
    have tk: "take (Suc (Suc ?m)) ?items = take (Suc ?m) ?items"
      using False by simp
    show ?thesis
      unfolding n4 using False lt
      by (simp add: serving_def sq dr tk so li rx wa fs wr se fr z del: upt_Suc)
  qed
  with e show ?thesis by blast
qed


lemma run_Inr_append:
  "run parse evs st = Inr st' \<Longrightarrow> run parse (evs @ evs') st = run parse evs' st'"
  by (induction evs arbitrary: st) (auto split: sum.splits)

lemma serving_run:
  assumes "serving st0 s subs rs st" and "orderly parse (length subs - length rs) t"
  shows "\<exists>st'. run parse (map (event_of s) t) st = Inr st'
               \<and> serving st0 s (subs @ submissions t)
                    (rs @ map (\<lambda>u. the (reply_result parse u)) (answers t)) st'"
  using assms
proof (induction t arbitrary: subs rs st)
  case Nil
  then show ?case by simp
next
  case (Cons x t)
  show ?case
  proof (cases x)
    case (Submit cs)
    let ?st1 = "fold perform (map (\<lambda>cq. Call_send (fst cq) (snd cq)) cs) st"
    have sv: "serving st0 s (subs @ cs) rs ?st1"
      by (rule serving_sends [OF Cons.prems(1)])
    then have j: "jobs ?st1 = []" by (simp add: serving_def)
    have e: "step parse (event_of s x) st = Inr ?st1"
      by (simp add: Submit step_def drain_empty j)
    from Cons.prems(1) have le: "length rs \<le> length subs" by (simp add: serving_def)
    have "orderly parse (length (subs @ cs) - length rs) t"
      using Cons.prems(2) le by (simp add: Submit add.commute)
    from Cons.IH [OF sv this] e show ?thesis by (simp add: Submit)
  next
    case (Answer u)
    from Cons.prems(2) have lt: "length rs < length subs" and unit: "split_DELIMITER u = [u]"
      and ok: "orderly parse (length subs - length rs - 1) t"
      by (simp_all add: Answer)
    from Cons.prems(2) obtain res where rr: "reply_result parse u = Some res"
      by (auto simp: Answer)
    from serving_answer [OF Cons.prems(1) lt unit rr] obtain st1 where
      e: "step parse (Socket_data s (u @ DELIMITER)) st = Inr st1"
      and sv: "serving st0 s subs (rs @ [res]) st1"
      by blast
    have "orderly parse (length subs - length (rs @ [res])) t" using ok by simp
    from Cons.IH [OF sv this] e rr show ?thesis by (simp add: Answer)
  qed
qed

text \<open>
  Claim C1, as amended. On an idle connection let commands be submitted, in any
  number of tasks, and let the device answer only commands it has been sent, one reply
  in a chunk, while no send timer fires. Then no task throws, and at every moment: the
  requests written are those of the first commands submitted, in the order of
  submission, one more than replies have been routed (or all of them), so a request is
  written only when every request before it has its reply; and the promise of the
  \<open>i\<close>-th command submitted (\<open>fresh st0 + i\<close>) is settled with the \<open>i\<close>-th reply.
\<close>

theorem send_fifo:
  assumes "idle s st0" and "orderly parse 0 t"
  shows "case run parse (map (event_of s) t) st0 of
           Inl _ \<Rightarrow> False
         | Inr st \<Rightarrow>
             written st = written st0 @
               map (\<lambda>i. (s, request (command i) (qs i)))
                 (take (Suc (length (answers t))) (items_of (fresh st0) (submissions t)))
             \<and> settled st = settled st0 @
                 zip [fresh st0 ..< fresh st0 + length (answers t)]
                     (map (\<lambda>u. the (reply_result parse u)) (answers t))
             \<and> length (written st) \<le> length (written st0) + Suc (length (answers t))"
proof -
  from serving_run [OF serving_idle [OF assms(1)], of parse t] assms(2)
  obtain st where r: "run parse (map (event_of s) t) st0 = Inr st"
    and sv: "serving st0 s (submissions t) (map (\<lambda>u. the (reply_result parse u)) (answers t)) st"
    by auto
  from sv show ?thesis by (simp add: r serving_def)
qed

text \<open>A connected client, idle; two commands submitted in one task, and their replies.\<close>

definition idle_client :: client where
  "idle_client =
     (new_client ''192.168.1.20'')
       \<lparr> state := Connected, socket := Some 0, opened := [0], listening := [0], fresh := 3 \<rparr>"

definition sample_traffic :: "traffic list" where
  "sample_traffic =
     [Submit [(''player/get_volume'', [(''pid'', ''1'')]), (''player/get_players'', [])],
      Answer volume_reply, Answer players_reply]"

theorem send_fifo_witness:
  "idle 0 idle_client \<and> orderly json_lite 0 sample_traffic
   \<and> (case run json_lite (map (event_of 0) sample_traffic) idle_client of
         Inl _ \<Rightarrow> False
       | Inr st \<Rightarrow>
           written st = [(0, ''heos://player/get_volume?pid=1'' @ DELIMITER),
                         (0, ''heos://player/get_players?'' @ DELIMITER)]
           \<and> settled st =
               [(3, Fulfilled (Response \<lparr> payload = JNull, rsp_command = JStr ''player/get_volume'',
                                           message = [(''pid'', QStr ''1''), (''level'', QStr ''50'')] \<rparr>)),
                (4, Fulfilled (Response \<lparr> payload = JArr [JObj [(''name'', JStr ''Kitchen''), (''pid'', JNum 1)]],
                                           rsp_command = JStr ''player/get_players'',
                                           message = [] \<rparr>))])"
proof -
  have i: "idle 0 idle_client"
    by (simp add: idle_def idle_client_def new_client_def)
  have o: "orderly json_lite 0 sample_traffic"
    by code_simp
  have w: "written idle_client @
             map (\<lambda>i. (0, request (command i) (qs i)))
               (take (Suc (length (answers sample_traffic)))
                  (items_of (fresh idle_client) (submissions sample_traffic)))
           = [(0, ''heos://player/get_volume?pid=1'' @ DELIMITER),
              (0, ''heos://player/get_players?'' @ DELIMITER)]"
    by code_simp
  have z: "settled idle_client @
             zip [fresh idle_client ..< fresh idle_client + length (answers sample_traffic)]
                 (map (\<lambda>u. the (reply_result json_lite u)) (answers sample_traffic))
           = [(3, Fulfilled (Response \<lparr> payload = JNull, rsp_command = JStr ''player/get_volume'',
                                       message = [(''pid'', QStr ''1''), (''level'', QStr ''50'')] \<rparr>)),
              (4, Fulfilled (Response \<lparr> payload = JArr [JObj [(''name'', JStr ''Kitchen''), (''pid'', JNum 1)]],
                                       rsp_command = JStr ''player/get_players'',
                                       message = [] \<rparr>))]"
    by code_simp
  from send_fifo [OF i o] show ?thesis
    by (auto simp: i o w z split: sum.splits)
qed

text \<open>
  Claim C1 as stated fails when a timer fires. \<^verbatim>\<open>player/get_volume\<close> (the send call 3)
  is written and gets no reply in time; \<^verbatim>\<open>player/get_mute\<close> (the send call 4) is
  submitted meanwhile. The timer of 3 fires: 3 is rejected, and the request of 4 is
  written although the reply to the request before it is still to come. That reply
  arrives, and it settles the promise of 4.
\<close>

theorem send_late_reply_counterexample:
  "outcome_after
     (run json_lite
        (session_start @
         [User [Call_send ''player/get_volume'' [(''pid'', ''1'')]],
          User [Call_send ''player/get_mute'' [(''pid'', ''1'')]],
          Send_timer 3,
          Socket_data 0 (volume_reply @ DELIMITER)])
        (new_client ''192.168.1.20'')) 3
   = Some (Rejected Send_Timeout)
   \<and> outcome_after
     (run json_lite
        (session_start @
         [User [Call_send ''player/get_volume'' [(''pid'', ''1'')]],
          User [Call_send ''player/get_mute'' [(''pid'', ''1'')]],
          Send_timer 3,
          Socket_data 0 (volume_reply @ DELIMITER)])
        (new_client ''192.168.1.20'')) 4
   = Some (Fulfilled (Response \<lparr> payload = JNull, rsp_command = JStr ''player/get_volume'',
                                  message = [(''pid'', QStr ''1''), (''level'', QStr ''50'')] \<rparr>))
   \<and> written_after
     (run json_lite
        (session_start @
         [User [Call_send ''player/get_volume'' [(''pid'', ''1'')]],
          User [Call_send ''player/get_mute'' [(''pid'', ''1'')]],
          Send_timer 3])
        (new_client ''192.168.1.20''))
   = [''heos://system/register_for_change_events?enable=on'' @ DELIMITER,
      ''heos://player/get_volume?pid=1'' @ DELIMITER,
      ''heos://player/get_mute?pid=1'' @ DELIMITER]"
  by code_simp

section \<open>Properties of the supervisor\<close>




lemma emitted_release [simp]: "emitted (release p res st) = emitted st"
  by (simp add: release_def)

lemma emitted_settle [simp]: "emitted (settle p res st) = emitted st"
  by (simp add: settle_def split: option.splits)

lemma reconnectPromise_settle [simp]: "reconnectPromise (settle p res st) = reconnectPromise st"
  by (simp add: settle_def release_def split: option.splits)







end
